theory Spec2Isabelle
  imports Main "HOL-Library.Multiset"
begin

section \<open>Python values, dictionaries and errors\<close>

text \<open>
  The bot (\<^verbatim>\<open>bot.py\<close>) keeps feed entries as Python dictionaries whose values are
  strings or \<^verbatim>\<open>None\<close>.  A Python \<^verbatim>\<open>str\<close> is modelled as a \<^typ>\<open>string\<close>; text beyond
  ASCII is its UTF-8 encoding.  Truthiness (\<^verbatim>\<open>if v\<close>) of such a value: \<^verbatim>\<open>None\<close> and the
  empty string are false, every other string is true.
\<close>

datatype pyval = PNone | PStr string

fun truthy :: "pyval \<Rightarrow> bool" where
  "truthy PNone = False"
| "truthy (PStr s) = (s \<noteq> [])"

datatype py_error = KeyError | ParseError | OSError

text \<open>
  A feed entry is a dictionary from field names to values.  The entry cache is a
  dictionary from video ids to entries; it is kept as an association list in insertion
  order, because \<^verbatim>\<open>list(cache.values())\<close> reads the values in that order.
\<close>

type_synonym entry = "string \<rightharpoonup> pyval"

type_synonym cache = "(pyval \<times> entry) list"

text \<open>\<^verbatim>\<open>d[k] = v\<close> on an insertion-ordered dictionary: an existing key keeps its place.\<close>

fun dict_set :: "'k \<Rightarrow> 'v \<Rightarrow> ('k \<times> 'v) list \<Rightarrow> ('k \<times> 'v) list" where
  "dict_set k v [] = [(k, v)]"
| "dict_set k v ((k', v') # kvs) =
     (if k = k' then (k, v) # kvs else (k', v') # dict_set k v kvs)"

text \<open>\<^verbatim>\<open>{k: v for k, v in e.items() if v}\<close>: the fields of \<open>e\<close> with a true value.\<close>

definition truthy_items :: "entry \<Rightarrow> entry" where
  "truthy_items e =
     (\<lambda>k. case e k of None \<Rightarrow> None | Some v \<Rightarrow> if truthy v then Some v else None)"

text \<open>\<^verbatim>\<open>stored.update(fields)\<close>: every field of \<open>fields\<close> overwrites, the others stay.\<close>

definition dict_update :: "entry \<Rightarrow> entry \<Rightarrow> entry" where
  "dict_update stored fields = stored ++ fields"

section \<open>Entry cache: merge of a parsed feed\<close>

text \<open>
  \<^verbatim>\<open>
  def accumulate_from_rss(cache, entries):
      added = 0
      for e in entries:
          vid = e["id"]
          if vid not in cache:
              cache[vid] = e
              added += 1
          else:
              cache[vid].update({k: v for k, v in e.items() if v})
      return added
  \<close>
  The function mutates \<open>cache\<close>; the model returns the new cache with the count.
  \<^verbatim>\<open>e["id"]\<close> raises \<^verbatim>\<open>KeyError\<close> on an entry without that field.  The stored entry is
  the very object of the list, and neither caller reads the list again, so the model
  passes values.
\<close>

fun accumulate_loop :: "cache \<Rightarrow> nat \<Rightarrow> entry list \<Rightarrow> py_error + cache \<times> nat" where
  "accumulate_loop cache added [] = Inr (cache, added)"
| "accumulate_loop cache added (e # es) =
     (case e ''id'' of
        None \<Rightarrow> Inl KeyError
      | Some vid \<Rightarrow>
          (case map_of cache vid of
             None \<Rightarrow> accumulate_loop (dict_set vid e cache) (added + 1) es
           | Some stored \<Rightarrow>
               accumulate_loop
                 (dict_set vid (dict_update stored (truthy_items e)) cache) added es))"

definition accumulate_from_rss :: "cache \<Rightarrow> entry list \<Rightarrow> py_error + cache \<times> nat" where
  "accumulate_from_rss cache entries = accumulate_loop cache 0 entries"

text \<open>A field is empty in an entry when it is absent, \<^verbatim>\<open>None\<close> or the empty string.\<close>

definition field_empty :: "entry \<Rightarrow> string \<Rightarrow> bool" where
  "field_empty e k = (case e k of None \<Rightarrow> True | Some v \<Rightarrow> \<not> truthy v)"

section \<open>Feed parser\<close>

text \<open>
  \<^verbatim>\<open>xml.etree.ElementTree\<close> gives an element a tag (a namespaced name is written
  \<^verbatim>\<open>{uri}local\<close>), a dictionary of attributes, an optional text and its child elements in
  document order (the selector \<open>el_text\<close> is the attribute \<^verbatim>\<open>text\<close>).
\<close>

datatype element =
  Element (tag: string) (attrib: "(string \<times> string) list") (el_text: "string option")
    (children: "element list")

definition atom_ns :: string where
  "atom_ns = ''{http://www.w3.org/2005/Atom}''"


definition yt_ns :: string where
  "yt_ns = ''{http://www.youtube.com/xml/schemas/2015}''"











section \<open>The persisted cache file\<close>

text \<open>
  The file at \<^verbatim>\<open>RSS_CACHE_PATH\<close> is absent, unreadable as JSON (or not a JSON object),
  or a JSON object.  The members of the object are listed in file order; a member's value
  is a dictionary of strings and nulls, or something else.
\<close>

datatype jmember = JDict entry | JNotDict

datatype rss_file = RssAbsent | RssUnreadable | RssObject "(string \<times> jmember) list"

text \<open>\<^verbatim>\<open>json.load\<close> keeps the last value of a repeated key, at the place of the first.\<close>

fun json_object :: "(string \<times> 'v) list \<Rightarrow> (string \<times> 'v) list \<Rightarrow> (string \<times> 'v) list" where
  "json_object acc [] = acc"
| "json_object acc ((k, v) # kvs) = json_object (dict_set k v acc) kvs"

fun dict_members :: "(string \<times> jmember) list \<Rightarrow> cache" where
  "dict_members [] = []"
| "dict_members ((k, JDict d) # kvs) = (PStr k, d) # dict_members kvs"
| "dict_members ((k, JNotDict) # kvs) = dict_members kvs"

text \<open>
  \<^verbatim>\<open>
  def load_rss_cache(path):
      try:
          if os.path.exists(path):
              with open(path, "r", encoding="utf-8") as f:
                  data = json.load(f)
              return {k: v for k, v in data.items() if isinstance(k, str) and isinstance(v, dict)}
      except Exception as e:
          log.exception("Failed to load RSS cache: %s", e)
      return {}
  \<close>
\<close>

fun load_rss_cache :: "rss_file \<Rightarrow> cache" where
  "load_rss_cache RssAbsent = []"
| "load_rss_cache RssUnreadable = []"
| "load_rss_cache (RssObject members) = dict_members (json_object [] members)"

text \<open>
  \<^verbatim>\<open>json.dump\<close> writes a key \<^verbatim>\<open>None\<close> as \<^verbatim>\<open>"null"\<close>.  The write succeeds, or fails before the
  file is opened (the file is as before), or fails after it was truncated (the file is
  unreadable from then on); \<^verbatim>\<open>save_rss_cache\<close> logs either failure and returns.
  \<^verbatim>\<open>
  def save_rss_cache(path, cache):
      try:
          with open(path, "w", encoding="utf-8") as f:
              json.dump(cache, f, ensure_ascii=False, indent=2)
      except Exception as e:
          log.exception("Failed to save RSS cache: %s", e)
  \<close>
\<close>

datatype write_outcome = Written | OpenFailed | DumpFailed




section \<open>Configuration, process state and the outside world\<close>

text \<open>
  The settings read from the environment at start-up.  \<^verbatim>\<open>os.getenv\<close> gives \<^verbatim>\<open>None\<close> for a
  variable that is not set.
\<close>

record config =
  GUILD_ID :: int
  YOUTUBE_CHANNEL_ID :: "string option"
  VOICE_CATEGORY_NAME :: string
  SUBS_GOAL :: int
  LIVE_ALERT_CHANNEL_ID :: int
  REMINDER_CHANNEL_ID :: int

text \<open>
  The chat server as the client library caches it: channels of several kinds, each with
  an id, a name, the category it sits in and the two permission overwrites of the
  \<^verbatim>\<open>@everyone\<close> role that the bot reads (\<^verbatim>\<open>None\<close>: not set).  One operation reads one
  snapshot of it.
\<close>

datatype channel_kind = VoiceChannel | TextChannel | CategoryChannel | OtherChannel

record channel =
  ch_id :: int
  ch_kind :: channel_kind
  ch_name :: string
  ch_category_id :: "int option"
  ow_view_channel :: "bool option"
  ow_connect :: "bool option"

record guild =
  g_channels :: "channel list"
  member_count :: int

definition get_channel :: "guild \<Rightarrow> int \<Rightarrow> channel option" where
  "get_channel g i = List.find (\<lambda>c. ch_id c = i) (g_channels g)"

definition voice_channels :: "guild \<Rightarrow> channel list" where
  "voice_channels g = filter (\<lambda>c. ch_kind c = VoiceChannel) (g_channels g)"

definition categories :: "guild \<Rightarrow> channel list" where
  "categories g = filter (\<lambda>c. ch_kind c = CategoryChannel) (g_channels g)"

text \<open>The three live states the classifier reports; \<^verbatim>\<open>None\<close> is the inconclusive answer.\<close>

datatype live_state = Live | Upcoming | Offline

text \<open>
  Every call that leaves the process is written to a trace, in the order of the calls:
  HTTP reads, the chat platform's write operations and the writes of local files.
\<close>

datatype action =
    HttpGet string
  | EditName int string
  | SetPermissions int
  | CreateCategory string
  | CreateVoiceChannel string "int option"
  | SendReminder int entry string
  | SendAlert int string
  | WriteRssCache cache
  | WriteChannelIds "(string \<times> int) list"
  | WriteDebugHtml string

text \<open>
  A write operation of the chat platform succeeds or raises one of the two exceptions
  the bot catches around every such call.
\<close>

datatype api_result = ApiOk | Forbidden | HTTPException

text \<open>
  The answers of the outside world during one operation: the guild snapshot
  (\<^verbatim>\<open>bot.get_guild(GUILD_ID)\<close>), the result of an HTTP read (\<^verbatim>\<open>None\<close>: the request or
  \<^verbatim>\<open>raise_for_status\<close> raised), the XML parser, the result of each chat-platform call, the
  channel a successful creation returns, the outcome of each file write, and the random
  numbers drawn.
\<close>

record env =
  get_guild :: "guild option"
  http_get :: "string \<Rightarrow> string option"
  fromstring :: "string \<Rightarrow> element option"
  discord :: "action \<Rightarrow> api_result"
  created :: "action \<Rightarrow> channel"
  rss_write :: write_outcome
  ids_write :: write_outcome
  debug_write_ok :: bool
  shuffle_draw :: "nat \<Rightarrow> nat"
  randint_draw :: nat

text \<open>
  The file at \<^verbatim>\<open>CHANNEL_ID_STORE\<close>: absent, unreadable as JSON (or not a JSON object), or a
  JSON object whose members hold an integer, a string or anything else (a boolean too:
  \<^verbatim>\<open>str(True)\<close> has no digit).  A string value is the list of its characters, each a
  Unicode code point, since \<^verbatim>\<open>str.isdigit\<close> and \<^verbatim>\<open>int\<close> read characters and not bytes.  An
  integer is one that \<^verbatim>\<open>json.load\<close> has read, so \<^verbatim>\<open>str\<close> of it does not raise.
\<close>

datatype jvalue = JInt int | JStr "int list" | JOther

datatype ids_file = IdsAbsent | IdsUnreadable | IdsObject "(string \<times> jvalue) list"

record disk =
  rss_cache_file :: rss_file
  channel_id_file :: ids_file
  debug_live_html :: "string option"

text \<open>
  The module's global variables: the six voice channel ids, the last broadcast
  statistics, member count and live state, the reminder queue and the dictionary of
  persisted channel ids (\<^verbatim>\<open>_last_stats\<close>, \<^verbatim>\<open>_last_members\<close>, \<^verbatim>\<open>_last_live_state\<close> and
  \<^verbatim>\<open>_id_cache\<close> in the source).
\<close>

record bot_state =
  VC_SUBS_ID :: "int option"
  VC_VIEWS_ID :: "int option"
  VC_VIDEOS_ID :: "int option"
  VC_GOAL_ID :: "int option"
  VC_MEMBERS_ID :: "int option"
  VC_LIVE_ID :: "int option"
  last_stats :: "(int \<times> int \<times> int) option"
  last_members :: "int option"
  last_live_state :: "live_state option"
  reminder_queue :: "entry list"
  id_cache :: "(string \<times> int option) list"

text \<open>
  What one operation leaves behind: the globals, the files, the calls it made, and the
  exception that left it, if one did.
\<close>

record outcome =
  st :: bot_state
  dk :: disk
  trace :: "action list"
  raised :: "py_error option"

definition returns :: "bot_state \<Rightarrow> disk \<Rightarrow> action list \<Rightarrow> outcome" where
  "returns s d tr = \<lparr>st = s, dk = d, trace = tr, raised = None\<rparr>"

definition raises :: "py_error \<Rightarrow> bot_state \<Rightarrow> disk \<Rightarrow> action list \<Rightarrow> outcome" where
  "raises e s d tr = \<lparr>st = s, dk = d, trace = tr, raised = Some e\<rparr>"

section \<open>Feed refresh\<close>


text \<open>
  \<^verbatim>\<open>random.shuffle\<close>:
  \<^verbatim>\<open>
  for i in reversed(range(1, len(x))):
      j = randbelow(i + 1)
      x[i], x[j] = x[j], x[i]
  \<close>
  The number drawn at step \<open>i\<close> is \<open>draw i\<close>, reduced to the range.
\<close>

fun shuffle_from :: "(nat \<Rightarrow> nat) \<Rightarrow> nat \<Rightarrow> 'a list \<Rightarrow> 'a list" where
  "shuffle_from draw 0 xs = xs"
| "shuffle_from draw (Suc k) xs =
     (let i = Suc k; j = draw i mod (i + 1)
      in shuffle_from draw k (xs[i := xs ! j, j := xs ! i]))"

definition shuffle :: "(nat \<Rightarrow> nat) \<Rightarrow> 'a list \<Rightarrow> 'a list" where
  "shuffle draw xs = shuffle_from draw (length xs - 1) xs"





section \<open>Reminder queue\<close>

text \<open>
  \<^verbatim>\<open>random.randint(a, b)\<close> draws from \<open>a..b\<close>, both ends included; \<open>r\<close> is the raw number
  drawn.  The bot calls it with \<open>a \<le> b\<close> only.
\<close>

definition randint :: "int \<Rightarrow> int \<Rightarrow> nat \<Rightarrow> int" where
  "randint a b r = a + int r mod (b - a + 1)"

text \<open>
  \<^verbatim>\<open>xs.insert(i, x)\<close>: an index past the end appends, a negative index counts from the end
  and stops at the front.
\<close>

definition list_insert :: "int \<Rightarrow> 'a \<Rightarrow> 'a list \<Rightarrow> 'a list" where
  "list_insert i x xs =
     (let n = int (length xs);
          j = (if i < 0 then max 0 (n + i) else min i n)
      in take (nat j) xs @ x # drop (nat j) xs)"

fun py_str :: "pyval \<Rightarrow> string" where
  "py_str PNone = ''None''"
| "py_str (PStr s) = s"

definition youtube_watch_url :: "pyval \<Rightarrow> string" where
  "youtube_watch_url video_id = ''https://www.youtube.com/watch?v='' @ py_str video_id"

text \<open>\<^verbatim>\<open>entry.get("link") or youtube_watch_url(vid)\<close>\<close>

definition entry_url :: "entry \<Rightarrow> pyval \<Rightarrow> string" where
  "entry_url e vid =
     (case e ''link'' of
        Some l \<Rightarrow> if truthy l then py_str l else youtube_watch_url vid
      | None \<Rightarrow> youtube_watch_url vid)"

text \<open>
  \<^verbatim>\<open>
  async def reminder_loop():
      await bot.wait_until_ready()
      if REMINDER_CHANNEL_ID == 0:
          return
      guild = bot.get_guild(GUILD_ID)
      if guild is None:
          return
      channel = guild.get_channel(REMINDER_CHANNEL_ID)
      if not isinstance(channel, discord.TextChannel):
          return
      global reminder_queue
      if not reminder_queue:
          cache = load_rss_cache(RSS_CACHE_PATH)
          reminder_queue = list(cache.values())
          random.shuffle(reminder_queue)
          if not reminder_queue:
              log.info("Reminder queue empty; no post this minute.")
              return
      entry = reminder_queue.pop()
      vid = entry["id"]
      url = entry.get("link") or youtube_watch_url(vid)
      try:
          await channel.send(embed=build_embed_for_entry(entry), view=WatchView(url))
      except discord.Forbidden: ...
      except discord.HTTPException as e: ...
      insert_at = random.randint(0, max(0, len(reminder_queue)))
      reminder_queue.insert(insert_at, entry)
  \<close>
  \<^verbatim>\<open>pop()\<close> takes the last element.  \<^verbatim>\<open>entry["id"]\<close> raises \<^verbatim>\<open>KeyError\<close> after the pop, so
  the queue is then one entry shorter.  Both exceptions of \<^verbatim>\<open>send\<close> are logged and the
  function goes on.
\<close>

definition reminder_loop :: "config \<Rightarrow> env \<Rightarrow> bot_state \<Rightarrow> disk \<Rightarrow> outcome" where
  "reminder_loop cfg w s d =
     (if REMINDER_CHANNEL_ID cfg = 0 then returns s d []
      else case get_guild w of
        None \<Rightarrow> returns s d []
      | Some g \<Rightarrow>
          (case get_channel g (REMINDER_CHANNEL_ID cfg) of
             None \<Rightarrow> returns s d []
           | Some ch \<Rightarrow>
               if ch_kind ch \<noteq> TextChannel then returns s d []
               else
                 (let q = (if reminder_queue s = []
                           then shuffle (shuffle_draw w)
                                  (map snd (load_rss_cache (rss_cache_file d)))
                           else reminder_queue s)
                  in if q = [] then returns (s\<lparr>reminder_queue := q\<rparr>) d []
                     else
                       (let entry = last q; rest = butlast q
                        in case entry ''id'' of
                             None \<Rightarrow> raises KeyError (s\<lparr>reminder_queue := rest\<rparr>) d []
                           | Some vid \<Rightarrow>
                               (let url = entry_url entry vid;
                                    insert_at =
                                      randint 0 (max 0 (int (length rest))) (randint_draw w)
                                in returns
                                     (s\<lparr>reminder_queue := list_insert insert_at entry rest\<rparr>)
                                     d [SendReminder (ch_id ch) entry url])))))"

section \<open>Statistics channels\<close>

text \<open>
  \<^verbatim>\<open>fmt_num(n)\<close> is \<^verbatim>\<open>f"{n:,}"\<close>: the decimal digits in groups of three from the right,
  separated by commas, after a minus sign for a negative number.
\<close>

fun str_nat :: "nat \<Rightarrow> string" where
  "str_nat n =
     (if n < 10 then [char_of (48 + n)] else str_nat (n div 10) @ [char_of (48 + n mod 10)])"

function group_thousands :: "string \<Rightarrow> string" where
  "group_thousands ds =
     (if length ds \<le> 3 then ds
      else group_thousands (take (length ds - 3) ds) @ '','' @ drop (length ds - 3) ds)"
  by pat_completeness auto
termination
  by (relation "measure length") auto

definition fmt_num :: "int \<Rightarrow> string" where
  "fmt_num n =
     (if n < 0 then ''-'' @ group_thousands (str_nat (nat (- n)))
      else group_thousands (str_nat (nat n)))"

text \<open>The symbols in the channel names, as their UTF-8 bytes.\<close>

definition sym_bar_chart :: string where
  "sym_bar_chart = [CHR 0xF0, CHR 0x9F, CHR 0x93, CHR 0x8A]"

definition sym_eye :: string where
  "sym_eye = [CHR 0xF0, CHR 0x9F, CHR 0x91, CHR 0x81, CHR 0xEF, CHR 0xB8, CHR 0x8F]"

definition sym_film :: string where
  "sym_film = [CHR 0xF0, CHR 0x9F, CHR 0x8E, CHR 0x9E, CHR 0xEF, CHR 0xB8, CHR 0x8F]"

definition sym_target :: string where
  "sym_target = [CHR 0xF0, CHR 0x9F, CHR 0x8E, CHR 0xAF]"

definition sym_people :: string where
  "sym_people = [CHR 0xF0, CHR 0x9F, CHR 0x91, CHR 0xA5]"

definition sym_red :: string where
  "sym_red = [CHR 0xF0, CHR 0x9F, CHR 0x94, CHR 0xB4]"

definition sym_green :: string where
  "sym_green = [CHR 0xF0, CHR 0x9F, CHR 0x9F, CHR 0xA2]"

definition sym_yellow :: string where
  "sym_yellow = [CHR 0xF0, CHR 0x9F, CHR 0x9F, CHR 0xA1]"

definition sym_black :: string where
  "sym_black = [CHR 0xE2, CHR 0x9A, CHR 0xAB]"

text \<open>
  \<^verbatim>\<open>
  async def deny_connect_permissions(vc, guild):
      everyone = guild.default_role
      overwrites = vc.overwrites_for(everyone)
      changed = False
      if overwrites.view_channel is not True:
          overwrites.view_channel = True
          changed = True
      if overwrites.connect is not False:
          overwrites.connect = False
          changed = True
      if changed:
          try:
              await vc.set_permissions(everyone, overwrite=overwrites, reason=...)
          except discord.Forbidden: ...
          except discord.HTTPException as e: ...
  \<close>
  Both exceptions are logged, so the function always returns; the model gives the calls
  it makes.
\<close>

definition deny_connect_permissions :: "channel \<Rightarrow> action list" where
  "deny_connect_permissions vc =
     (if ow_view_channel vc \<noteq> Some True \<or> ow_connect vc \<noteq> Some False
      then [SetPermissions (ch_id vc)] else [])"

text \<open>
  \<^verbatim>\<open>
  updates = [
      (VC_SUBS_ID,   f"(chart) Subs: {fmt_num(subs)}"),
      (VC_VIEWS_ID,  f"(eye) Views: {fmt_num(views)}"),
      (VC_VIDEOS_ID, f"(film) Videos: {fmt_num(videos)}"),
      (VC_GOAL_ID,   f"(target) Goal: {fmt_num(SUBS_GOAL)}"),
  ]
  \<close>
\<close>

definition stats_updates ::
  "config \<Rightarrow> bot_state \<Rightarrow> int \<times> int \<times> int \<Rightarrow> (int option \<times> string) list" where
  "stats_updates cfg s stats =
     (case stats of (subs, views, videos) \<Rightarrow>
        [(VC_SUBS_ID s, sym_bar_chart @ '' Subs: '' @ fmt_num subs),
         (VC_VIEWS_ID s, sym_eye @ '' Views: '' @ fmt_num views),
         (VC_VIDEOS_ID s, sym_film @ '' Videos: '' @ fmt_num videos),
         (VC_GOAL_ID s, sym_target @ '' Goal: '' @ fmt_num (SUBS_GOAL cfg))])"

text \<open>
  \<^verbatim>\<open>
  for ch_id, name in updates:
      if not ch_id:
          continue
      ch = guild.get_channel(ch_id)
      if not isinstance(ch, discord.VoiceChannel):
          continue
      try:
          await ch.edit(name=name, reason="Update YouTube statistics")
          await deny_connect_permissions(ch, guild)
      except discord.Forbidden: ...
      except discord.HTTPException as e: ...
  \<close>
  \<^verbatim>\<open>not ch_id\<close> holds for \<^verbatim>\<open>None\<close> and for \<open>0\<close>.  A failed edit is logged and the loop goes
  on with the next channel.
\<close>

fun update_loop :: "env \<Rightarrow> guild \<Rightarrow> (int option \<times> string) list \<Rightarrow> action list" where
  "update_loop w g [] = []"
| "update_loop w g ((None, name) # us) = update_loop w g us"
| "update_loop w g ((Some i, name) # us) =
     (if i = 0 then update_loop w g us
      else case get_channel g i of
             None \<Rightarrow> update_loop w g us
           | Some ch \<Rightarrow>
               if ch_kind ch \<noteq> VoiceChannel then update_loop w g us
               else
                 (case discord w (EditName (ch_id ch) name) of
                    ApiOk \<Rightarrow>
                      EditName (ch_id ch) name # deny_connect_permissions ch @ update_loop w g us
                  | Forbidden \<Rightarrow> EditName (ch_id ch) name # update_loop w g us
                  | HTTPException \<Rightarrow> EditName (ch_id ch) name # update_loop w g us))"

text \<open>
  \<^verbatim>\<open>
  async def update_stats_channels(guild, stats):
      global _last_stats
      if stats == _last_stats:
          return
      _last_stats = stats
      subs, views, videos = stats
      updates = [...]
      for ch_id, name in updates: ...
  \<close>
  The result is the new globals and the calls made.
\<close>

definition update_stats_channels ::
  "config \<Rightarrow> env \<Rightarrow> guild \<Rightarrow> bot_state \<Rightarrow> int \<times> int \<times> int \<Rightarrow> bot_state \<times> action list" where
  "update_stats_channels cfg w g s stats =
     (if Some stats = last_stats s then (s, [])
      else (let s' = s\<lparr>last_stats := Some stats\<rparr>
            in (s', update_loop w g (stats_updates cfg s' stats))))"

text \<open>The rename calls of a trace, in order.\<close>

fun edits :: "action list \<Rightarrow> (int \<times> string) list" where
  "edits [] = []"
| "edits (EditName i name # tr) = (i, name) # edits tr"
| "edits (a # tr) = edits tr"

text \<open>
  Whether the loop reaches the rename call for a channel id: the id is set and not zero,
  and the guild has a voice channel under it.
\<close>

definition resolves :: "guild \<Rightarrow> int option \<Rightarrow> bool" where
  "resolves g i =
     (case i of
        None \<Rightarrow> False
      | Some j \<Rightarrow> j \<noteq> 0 \<and>
          (case get_channel g j of None \<Rightarrow> False | Some ch \<Rightarrow> ch_kind ch = VoiceChannel))"

section \<open>Live status\<close>

text \<open>
  \<^verbatim>\<open>sub in s\<close> on strings, and \<^verbatim>\<open>s.startswith(p)\<close>.
\<close>

fun startswith :: "string \<Rightarrow> string \<Rightarrow> bool" where
  "startswith s [] = True"
| "startswith [] (p # ps) = False"
| "startswith (c # cs) (p # ps) = (c = p \<and> startswith cs ps)"

fun str_in :: "string \<Rightarrow> string \<Rightarrow> bool" where
  "str_in sub [] = (sub = [])"
| "str_in sub (c # cs) = (startswith (c # cs) sub \<or> str_in sub cs)"

definition dq :: char where
  "dq = CHR 0x22"

definition sq :: char where
  "sq = CHR 0x27"

definition is_quote :: "char \<Rightarrow> bool" where
  "is_quote c = (c = dq \<or> c = sq)"

text \<open>
  The pattern of the canonical link, compiled with \<^verbatim>\<open>re.IGNORECASE\<close>:
  \<^verbatim>\<open><link[^>]+rel=["']canonical["'][^>]+href=["']([^"']+)["']\<close>

  A letter of the pattern matches itself in either case.  On Unicode text the letters
  \<open>i\<close> and \<open>k\<close> also match U+0130, U+0131 and U+212A, which are the byte sequences below in
  UTF-8.  \<open>ci_char p s\<close> matches the pattern character \<open>p\<close> (lower case) at the head of
  \<open>s\<close> and gives the rest.
\<close>

definition ascii_lower :: "char \<Rightarrow> char" where
  "ascii_lower c =
     (if 65 \<le> (of_char c :: nat) \<and> (of_char c :: nat) \<le> 90
      then char_of ((of_char c :: nat) + 32) else c)"

definition ci_char :: "char \<Rightarrow> string \<Rightarrow> string option" where
  "ci_char p s =
     (case s of
        [] \<Rightarrow> None
      | c # cs \<Rightarrow>
          if ascii_lower c = p then Some cs
          else if p = CHR ''k'' \<and> startswith s [CHR 0xE2, CHR 0x84, CHR 0xAA] then Some (drop 3 s)
          else if p = CHR ''i'' \<and>
                  (startswith s [CHR 0xC4, CHR 0xB0] \<or> startswith s [CHR 0xC4, CHR 0xB1])
               then Some (drop 2 s)
          else None)"

fun match_ci :: "string \<Rightarrow> string \<Rightarrow> string option" where
  "match_ci [] s = Some s"
| "match_ci (p # ps) s = (case ci_char p s of None \<Rightarrow> None | Some rest \<Rightarrow> match_ci ps rest)"

text \<open>
  A greedy \<^verbatim>\<open>[...]+\<close> followed by the rest of the pattern \<open>k\<close>: the engine takes as many
  characters as the class allows and gives them back one at a time until \<open>k\<close> matches.
  \<open>group_then\<close> is the same for the capturing group and hands the captured text to \<open>k\<close>.
\<close>

fun plus_then :: "(char \<Rightarrow> bool) \<Rightarrow> (string \<Rightarrow> 'a option) \<Rightarrow> string \<Rightarrow> 'a option" where
  "plus_then P k [] = None"
| "plus_then P k (c # cs) =
     (if P c then (case plus_then P k cs of Some r \<Rightarrow> Some r | None \<Rightarrow> k cs) else None)"

fun group_then ::
  "(char \<Rightarrow> bool) \<Rightarrow> (string \<Rightarrow> string \<Rightarrow> 'a option) \<Rightarrow> string \<Rightarrow> string \<Rightarrow> 'a option" where
  "group_then P k acc [] = None"
| "group_then P k acc (c # cs) =
     (if P c
      then (case group_then P k (acc @ [c]) cs of Some r \<Rightarrow> Some r | None \<Rightarrow> k (acc @ [c]) cs)
      else None)"

definition quote_then :: "(string \<Rightarrow> 'a option) \<Rightarrow> string \<Rightarrow> 'a option" where
  "quote_then k s = (case s of [] \<Rightarrow> None | c # cs \<Rightarrow> if is_quote c then k cs else None)"

definition lit_then :: "string \<Rightarrow> (string \<Rightarrow> 'a option) \<Rightarrow> string \<Rightarrow> 'a option" where
  "lit_then lit k s = (case match_ci lit s of None \<Rightarrow> None | Some rest \<Rightarrow> k rest)"

text \<open>A match of the pattern that starts at the head of \<open>s\<close>: the text of group 1.\<close>

definition canonical_at :: "string \<Rightarrow> string option" where
  "canonical_at =
     lit_then ''<link''
       (plus_then (\<lambda>c. c \<noteq> CHR ''>'')
         (lit_then ''rel=''
           (quote_then
             (lit_then ''canonical''
               (quote_then
                 (plus_then (\<lambda>c. c \<noteq> CHR ''>'')
                   (lit_then ''href=''
                     (quote_then
                       (group_then (\<lambda>c. \<not> is_quote c)
                          (\<lambda>g. quote_then (\<lambda>rest. Some g)) [])))))))))"

text \<open>\<^verbatim>\<open>CANONICAL_RE.search(html)\<close>: the leftmost match; the result is \<^verbatim>\<open>m.group(1)\<close>.\<close>

fun canonical_search :: "string \<Rightarrow> string option" where
  "canonical_search [] = canonical_at []"
| "canonical_search (c # cs) =
     (case canonical_at (c # cs) of Some g \<Rightarrow> Some g | None \<Rightarrow> canonical_search cs)"

definition YTLIVE_URL :: "string \<Rightarrow> string" where
  "YTLIVE_URL channel_id = ''https://www.youtube.com/channel/'' @ channel_id @ ''/live''"

text \<open>The status markers searched for in a page.\<close>

definition mark_live :: "string \<Rightarrow> bool" where
  "mark_live html =
     (str_in (dq # ''isLiveBroadcast'' @ dq # '':true'') html \<or>
      str_in (dq # ''status'' @ dq # '':'' @ dq # ''LIVE'' @ [dq]) html)"

definition mark_upcoming :: "string \<Rightarrow> bool" where
  "mark_upcoming html =
     (str_in (dq # ''isUpcoming'' @ dq # '':true'') html \<or>
      str_in (dq # ''upcomingEventData'' @ [dq]) html)"

definition mark_offline :: "string \<Rightarrow> bool" where
  "mark_offline html =
     (str_in (dq # ''isLiveBroadcast'' @ dq # '':false'') html \<or>
      str_in (dq # ''status'' @ dq # '':'' @ dq # ''OFFLINE'' @ [dq]) html)"

text \<open>
  The branch for a canonical link to a watch page:
  \<^verbatim>\<open>
  try:
      r2 = requests.get(href, headers=headers, cookies=cookies, timeout=timeout)
      r2.raise_for_status()
      html2 = r2.text
      if '"isLiveBroadcast":true' in html2 or '"status":"LIVE"' in html2:
          return "live"
      if '"isUpcoming":true' in html2 or '"upcomingEventData"' in html2:
          return "upcoming"
      if '"isLiveBroadcast":false' in html2 or '"status":"OFFLINE"' in html2:
          return "offline"
  except Exception as e:
      log.warning("Failed to follow canonical watch URL: %s", e)
  return "live"  # fallback: canonical pointed to watch
  \<close>
\<close>

definition canonical_watch :: "env \<Rightarrow> string \<Rightarrow> live_state" where
  "canonical_watch w href =
     (case http_get w href of
        None \<Rightarrow> Live
      | Some html2 \<Rightarrow>
          if mark_live html2 then Live
          else if mark_upcoming html2 then Upcoming
          else if mark_offline html2 then Offline
          else Live)"

text \<open>
  Steps 2 and 3 and the inconclusive end:
  \<^verbatim>\<open>
  if '"isLiveBroadcast":true' in html or '"status":"LIVE"' in html:
      return "live"
  if '"isLiveBroadcast":false' in html or '"status":"OFFLINE"' in html:
      return "offline"
  if '"isUpcoming":true' in html or '"upcomingEventData"' in html:
      return "upcoming"
  with open("debug_live.html", "w", encoding="utf-8") as f:
      f.write(html)
  log.info("Dumped inconclusive HTML to debug_live.html")
  return None
  \<close>
  The write of the diagnostic file has no handler: when it fails, its \<^verbatim>\<open>OSError\<close> leaves the
  function (the only handler there is for \<^verbatim>\<open>requests.RequestException\<close>).
\<close>

type_synonym classified = "(py_error + live_state option) \<times> disk \<times> action list"

definition page_flags :: "env \<Rightarrow> disk \<Rightarrow> action list \<Rightarrow> string \<Rightarrow> classified" where
  "page_flags w d tr html =
     (if mark_live html then (Inr (Some Live), d, tr)
      else if mark_offline html then (Inr (Some Offline), d, tr)
      else if mark_upcoming html then (Inr (Some Upcoming), d, tr)
      else if debug_write_ok w
        then (Inr None, d\<lparr>debug_live_html := Some html\<rparr>, tr @ [WriteDebugHtml html])
        else (Inl OSError, d, tr @ [WriteDebugHtml html]))"

text \<open>
  \<^verbatim>\<open>
  def yt_is_live_noapi(channel_id, timeout=12):
      url = YTLIVE_URL.format(channel_id=channel_id)
      try:
          r = requests.get(url, headers=headers, cookies=cookies, timeout=timeout)
          r.raise_for_status()
          html = r.text
          m = CANONICAL_RE.search(html)
          if m:
              href = m.group(1)
              if "/watch" in href:
                  ... (canonical_watch)
              if "/channel/" in href:
                  return "offline"
          ... (page_flags)
      except requests.RequestException as e:
          log.error("Live check failed: %s", e)
          return None
  \<close>
\<close>

definition yt_is_live_noapi :: "env \<Rightarrow> disk \<Rightarrow> string \<Rightarrow> classified" where
  "yt_is_live_noapi w d channel_id =
     (let url = YTLIVE_URL channel_id
      in case http_get w url of
           None \<Rightarrow> (Inr None, d, [HttpGet url])
         | Some html \<Rightarrow>
             (case canonical_search html of
                None \<Rightarrow> page_flags w d [HttpGet url] html
              | Some href \<Rightarrow>
                  if str_in ''/watch'' href
                  then (Inr (Some (canonical_watch w href)), d, [HttpGet url, HttpGet href])
                  else if str_in ''/channel/'' href then (Inr (Some Offline), d, [HttpGet url])
                  else page_flags w d [HttpGet url] html))"

text \<open>The channel name and the notification title for a state.\<close>

fun target_name :: "live_state \<Rightarrow> string" where
  "target_name Live = sym_green @ '' LIVE''"
| "target_name Upcoming = sym_yellow @ '' UPCOMING''"
| "target_name Offline = sym_red @ '' OFFLINE''"

fun notification_title :: "live_state \<Rightarrow> string" where
  "notification_title Live = sym_red @ '' The channel is now LIVE!''"
| "notification_title Upcoming = sym_yellow @ '' A stream is scheduled!''"
| "notification_title Offline = sym_black @ '' The channel went offline.''"

text \<open>
  \<^verbatim>\<open>
  if ch.name != target_name:
      try:
          await ch.edit(name=target_name, reason="Update live status (no API)")
          await deny_connect_permissions(ch, guild)
      except discord.Forbidden: ...
      except discord.HTTPException as e: ...
  if LIVE_ALERT_CHANNEL_ID != 0:
      notif_channel = guild.get_channel(LIVE_ALERT_CHANNEL_ID)
      if isinstance(notif_channel, discord.TextChannel):
          ...
          try:
              await notif_channel.send(content="@everyone", embed=embed, delete_after=60)
          except discord.Forbidden: ...
          except discord.HTTPException as e: ...
  \<close>
\<close>

definition announce :: "config \<Rightarrow> env \<Rightarrow> guild \<Rightarrow> channel \<Rightarrow> live_state \<Rightarrow> action list" where
  "announce cfg w g ch state =
     (if ch_name ch \<noteq> target_name state
      then (case discord w (EditName (ch_id ch) (target_name state)) of
              ApiOk \<Rightarrow> EditName (ch_id ch) (target_name state) # deny_connect_permissions ch
            | Forbidden \<Rightarrow> [EditName (ch_id ch) (target_name state)]
            | HTTPException \<Rightarrow> [EditName (ch_id ch) (target_name state)])
      else [])
     @
     (if LIVE_ALERT_CHANNEL_ID cfg \<noteq> 0
      then (case get_channel g (LIVE_ALERT_CHANNEL_ID cfg) of
              None \<Rightarrow> []
            | Some notif_channel \<Rightarrow>
                if ch_kind notif_channel = TextChannel
                then [SendAlert (ch_id notif_channel) (notification_title state)] else [])
      else [])"

text \<open>
  \<^verbatim>\<open>
  async def live_status_loop_noapi():
      await bot.wait_until_ready()
      if not YOUTUBE_CHANNEL_ID:
          return
      guild = bot.get_guild(GUILD_ID)
      if guild is None or VC_LIVE_ID is None:
          return
      ch = guild.get_channel(VC_LIVE_ID)
      if not isinstance(ch, discord.VoiceChannel):
          return
      state = yt_is_live_noapi(YOUTUBE_CHANNEL_ID)
      if state is None:
          log.info("Live status check inconclusive; keeping previous state.")
          return
      global _last_live_state
      if _last_live_state == state:
          return
      _last_live_state = state
      ... (announce)
  \<close>
\<close>

definition live_status_loop_noapi :: "config \<Rightarrow> env \<Rightarrow> bot_state \<Rightarrow> disk \<Rightarrow> outcome" where
  "live_status_loop_noapi cfg w s d =
     (case YOUTUBE_CHANNEL_ID cfg of
        None \<Rightarrow> returns s d []
      | Some channel_id \<Rightarrow>
          if channel_id = [] then returns s d []
          else case get_guild w of
            None \<Rightarrow> returns s d []
          | Some g \<Rightarrow>
              (case VC_LIVE_ID s of
                 None \<Rightarrow> returns s d []
               | Some live_id \<Rightarrow>
                   (case get_channel g live_id of
                      None \<Rightarrow> returns s d []
                    | Some ch \<Rightarrow>
                        if ch_kind ch \<noteq> VoiceChannel then returns s d []
                        else
                          (case yt_is_live_noapi w d channel_id of
                             (Inl err, d', tr) \<Rightarrow> raises err s d' tr
                           | (Inr None, d', tr) \<Rightarrow> returns s d' tr
                           | (Inr (Some state), d', tr) \<Rightarrow>
                               if last_live_state s = Some state then returns s d' tr
                               else returns (s\<lparr>last_live_state := Some state\<rparr>) d'
                                      (tr @ announce cfg w g ch state)))))"

text \<open>The notifications of a trace, in order.\<close>

fun alerts :: "action list \<Rightarrow> (int \<times> string) list" where
  "alerts [] = []"
| "alerts (SendAlert i title # tr) = (i, title) # alerts tr"
| "alerts (a # tr) = alerts tr"

text \<open>The reads of a trace, in order.\<close>

fun fetches :: "action list \<Rightarrow> string list" where
  "fetches [] = []"
| "fetches (HttpGet url # tr) = url # fetches tr"
| "fetches (a # tr) = fetches tr"

text \<open>
  A page on which no step of the classifier matches: no canonical link to a watch or a
  channel page, and none of the six status markers.
\<close>

definition no_marker :: "string \<Rightarrow> bool" where
  "no_marker html =
     ((case canonical_search html of
         None \<Rightarrow> True
       | Some href \<Rightarrow> \<not> str_in ''/watch'' href \<and> \<not> str_in ''/channel/'' href) \<and>
      \<not> mark_live html \<and> \<not> mark_offline html \<and> \<not> mark_upcoming html)"

section \<open>Channel id store\<close>

text \<open>
  \<^verbatim>\<open>str.isdigit\<close> and \<^verbatim>\<open>int\<close> on a string, after the character tables of CPython 3.11
  (Unicode 14.0).  A decimal digit is a character of category Nd; these come in runs of
  ten, from the digit zero of a script to its digit nine, and \<open>decimal_zeros\<close> lists the
  zeros.  \<^verbatim>\<open>isdigit\<close> accepts the decimal digits and the other characters with a digit
  value (superscripts, subscripts, circled digits and the like), listed by their ranges.
  \<^verbatim>\<open>int\<close> reads a string of decimal digits of any scripts; on a string that \<^verbatim>\<open>isdigit\<close>
  accepts and that holds one of the other characters, or more than 4300 characters, it
  raises \<^verbatim>\<open>ValueError\<close>.
\<close>

definition decimal_zeros :: "int list" where
  "decimal_zeros =
     [48, 1632, 1776, 1984, 2406, 2534, 2662, 2790, 2918, 3046, 3174, 3302, 3430, 3558, 3664,
      3792, 3872, 4160, 4240, 6112, 6160, 6470, 6608, 6784, 6800, 6992, 7088, 7232, 7248,
      42528, 43216, 43264, 43472, 43504, 43600, 44016, 65296, 66720, 68912, 69734, 69872,
      69942, 70096, 70384, 70736, 70864, 71248, 71360, 71472, 71904, 72016, 72784, 73040,
      73120, 92768, 92864, 93008, 120782, 120792, 120802, 120812, 120822, 123200, 123632,
      125264, 130032]"

definition other_digits :: "(int \<times> int) list" where
  "other_digits =
     [(178, 179), (185, 185), (4969, 4977), (6618, 6618), (8304, 8304), (8308, 8313),
      (8320, 8329), (9312, 9320), (9332, 9340), (9352, 9360), (9450, 9450), (9461, 9469),
      (9471, 9471), (10102, 10110), (10112, 10120), (10122, 10130), (68160, 68163),
      (69216, 69224), (69714, 69722), (127232, 127242)]"

definition decimal_value :: "int \<Rightarrow> int option" where
  "decimal_value c =
     (case List.find (\<lambda>z. z \<le> c \<and> c < z + 10) decimal_zeros of
        None \<Rightarrow> None
      | Some z \<Rightarrow> Some (c - z))"

definition is_digit :: "int \<Rightarrow> bool" where
  "is_digit c = (decimal_value c \<noteq> None \<or> list_ex (\<lambda>(a, b). a \<le> c \<and> c \<le> b) other_digits)"

definition isdigit :: "int list \<Rightarrow> bool" where
  "isdigit s = (s \<noteq> [] \<and> list_all is_digit s)"

definition int_max_str_digits :: nat where
  "int_max_str_digits = 4300"

fun digits_value :: "int \<Rightarrow> int list \<Rightarrow> int option" where
  "digits_value a [] = Some a"
| "digits_value a (c # cs) =
     (case decimal_value c of
        None \<Rightarrow> None
      | Some v \<Rightarrow> digits_value (10 * a + v) cs)"

definition int_of_digits :: "int list \<Rightarrow> int option" where
  "int_of_digits s = (if int_max_str_digits < length s then None else digits_value 0 s)"

text \<open>
  \<^verbatim>\<open>
  def load_ids():
      if os.path.exists(CHANNEL_ID_STORE):
          try:
              with open(CHANNEL_ID_STORE, "r", encoding="utf-8") as f:
                  data = json.load(f)
              return {k: int(v) for k, v in data.items()
                      if isinstance(v, (int, str)) and str(v).isdigit()}
          except Exception as e:
              log.exception("Failed to load channel ID store: %s", e)
      return {}
  \<close>
  An integer passes when it is not negative, a string when \<^verbatim>\<open>isdigit\<close> accepts it.  Every
  key of the file is kept, whatever its name.  When \<^verbatim>\<open>int\<close> raises on a string that passed,
  the comprehension ends with the exception (\<^verbatim>\<open>None\<close> here), and the handler makes the
  result of the load the empty dictionary.
\<close>

fun accepted_ids :: "(string \<times> jvalue) list \<Rightarrow> (string \<times> int) list option" where
  "accepted_ids [] = Some []"
| "accepted_ids ((k, JInt n) # kvs) =
     (if 0 \<le> n then map_option (Cons (k, n)) (accepted_ids kvs) else accepted_ids kvs)"
| "accepted_ids ((k, JStr v) # kvs) =
     (if isdigit v
      then (case int_of_digits v of
              None \<Rightarrow> None
            | Some n \<Rightarrow> map_option (Cons (k, n)) (accepted_ids kvs))
      else accepted_ids kvs)"
| "accepted_ids ((k, JOther) # kvs) = accepted_ids kvs"

fun load_ids :: "ids_file \<Rightarrow> (string \<times> int) list" where
  "load_ids IdsAbsent = []"
| "load_ids IdsUnreadable = []"
| "load_ids (IdsObject members) =
     (case accepted_ids (json_object [] members) of
        None \<Rightarrow> []
      | Some ids \<Rightarrow> ids)"

text \<open>
  \<^verbatim>\<open>
  def save_ids(ids):
      try:
          serializable = {k: int(v) for k, v in ids.items() if v}
          with open(CHANNEL_ID_STORE, "w", encoding="utf-8") as f:
              json.dump(serializable, f, indent=2)
      except Exception as e:
          log.exception("Failed to save channel ID store: %s", e)
  \<close>
  \<^verbatim>\<open>if v\<close> drops \<^verbatim>\<open>None\<close> and \<open>0\<close>.
\<close>

fun serializable :: "(string \<times> int option) list \<Rightarrow> (string \<times> int) list" where
  "serializable [] = []"
| "serializable ((k, None) # kvs) = serializable kvs"
| "serializable ((k, Some v) # kvs) =
     (if v \<noteq> 0 then (k, v) # serializable kvs else serializable kvs)"

definition dump_ids :: "(string \<times> int) list \<Rightarrow> ids_file" where
  "dump_ids ids = IdsObject (map (\<lambda>(k, v). (k, JInt v)) ids)"

fun write_ids :: "write_outcome \<Rightarrow> ids_file \<Rightarrow> (string \<times> int) list \<Rightarrow> ids_file" where
  "write_ids Written file ids = dump_ids ids"
| "write_ids OpenFailed file ids = file"
| "write_ids DumpFailed file ids = IdsUnreadable"

definition save_ids :: "env \<Rightarrow> disk \<Rightarrow> (string \<times> int option) list \<Rightarrow> disk \<times> action list" where
  "save_ids w d ids =
     (d\<lparr>channel_id_file := write_ids (ids_write w) (channel_id_file d) (serializable ids)\<rparr>,
      [WriteChannelIds (serializable ids)])"

text \<open>
  The module's start:
  \<^verbatim>\<open>
  _id_cache = load_ids()
  VC_SUBS_ID = _id_cache.get("subs")
  ... (views, videos, goal, members, live)
  \<close>
  with every other global at its initial value.
\<close>

definition module_init :: "disk \<Rightarrow> bot_state" where
  "module_init d =
     (let ids = load_ids (channel_id_file d)
      in \<lparr>VC_SUBS_ID = map_of ids ''subs'', VC_VIEWS_ID = map_of ids ''views'',
          VC_VIDEOS_ID = map_of ids ''videos'', VC_GOAL_ID = map_of ids ''goal'',
          VC_MEMBERS_ID = map_of ids ''members'', VC_LIVE_ID = map_of ids ''live'',
          last_stats = None, last_members = None, last_live_state = None,
          reminder_queue = [], id_cache = map (\<lambda>(k, v). (k, Some v)) ids\<rparr>)"

text \<open>The six roles with the default names of their channels (\<^verbatim>\<open>targets\<close>).\<close>

definition targets :: "(string \<times> string) list" where
  "targets =
     [(''subs'', sym_bar_chart @ '' Subs: 0''),
      (''views'', sym_eye @ '' Views: 0''),
      (''videos'', sym_film @ '' Videos: 0''),
      (''goal'', sym_target @ '' Goal: 0''),
      (''members'', sym_people @ '' Members: 0''),
      (''live'', sym_red @ '' OFFLINE'')]"

definition roles :: "string list" where
  "roles = map fst targets"

text \<open>
  The start of \<^verbatim>\<open>ensure_stats_voice_channels\<close>: the category of the channels.
  \<^verbatim>\<open>
  category = None
  if VOICE_CATEGORY_NAME:
      category = discord.utils.get(guild.categories, name=VOICE_CATEGORY_NAME)
      if category is None:
          try:
              category = await guild.create_category(VOICE_CATEGORY_NAME, reason=...)
          except discord.Forbidden: ...
          except discord.HTTPException as e: ...
  \<close>
\<close>

definition resolve_category :: "config \<Rightarrow> env \<Rightarrow> guild \<Rightarrow> channel option \<times> action list" where
  "resolve_category cfg w g =
     (if VOICE_CATEGORY_NAME cfg = [] then (None, [])
      else case List.find (\<lambda>c. ch_name c = VOICE_CATEGORY_NAME cfg) (categories g) of
             Some category \<Rightarrow> (Some category, [])
           | None \<Rightarrow>
               (case discord w (CreateCategory (VOICE_CATEGORY_NAME cfg)) of
                  ApiOk \<Rightarrow>
                    (Some (created w (CreateCategory (VOICE_CATEGORY_NAME cfg))),
                     [CreateCategory (VOICE_CATEGORY_NAME cfg)])
                | Forbidden \<Rightarrow> (None, [CreateCategory (VOICE_CATEGORY_NAME cfg)])
                | HTTPException \<Rightarrow> (None, [CreateCategory (VOICE_CATEGORY_NAME cfg)])))"

text \<open>
  \<^verbatim>\<open>
  def by_id(i):
      if not i:
          return None
      ch = guild.get_channel(int(i))
      return ch if isinstance(ch, discord.VoiceChannel) else None
  \<close>
\<close>

definition by_id :: "guild \<Rightarrow> int option \<Rightarrow> channel option" where
  "by_id g i =
     (case i of
        None \<Rightarrow> None
      | Some j \<Rightarrow>
          if j = 0 then None
          else case get_channel g j of
                 None \<Rightarrow> None
               | Some ch \<Rightarrow> if ch_kind ch = VoiceChannel then Some ch else None)"

text \<open>
  \<^verbatim>\<open>
  def find_vc_by_name_or_prefix(default_name):
      prefix = default_name.split(":", 1)[0] if ":" in default_name else default_name
      for ch in guild.voice_channels:
          same_category = (category is None) or (ch.category_id == (category.id if category else None))
          if same_category and ch.name == default_name:
              return ch
      for ch in guild.voice_channels:
          same_category = ...
          if same_category and isinstance(ch.name, str) and ch.name.startswith(prefix):
              return ch
      return None
  \<close>
\<close>

definition same_category :: "channel option \<Rightarrow> channel \<Rightarrow> bool" where
  "same_category category ch =
     (case category of None \<Rightarrow> True | Some cat \<Rightarrow> ch_category_id ch = Some (ch_id cat))"

definition find_vc_by_name_or_prefix ::
  "guild \<Rightarrow> channel option \<Rightarrow> string \<Rightarrow> channel option" where
  "find_vc_by_name_or_prefix g category default_name =
     (let prefix = takeWhile (\<lambda>c. c \<noteq> CHR '':'') default_name
      in case List.find (\<lambda>ch. same_category category ch \<and> ch_name ch = default_name)
                (voice_channels g) of
           Some ch \<Rightarrow> Some ch
         | None \<Rightarrow>
             List.find (\<lambda>ch. same_category category ch \<and> startswith (ch_name ch) prefix)
               (voice_channels g))"

text \<open>
  \<^verbatim>\<open>
  id_map = {"subs": VC_SUBS_ID, "views": VC_VIEWS_ID, "videos": VC_VIDEOS_ID,
            "goal": VC_GOAL_ID, "members": VC_MEMBERS_ID, "live": VC_LIVE_ID}
  for key, _default_name in targets:
      ch = by_id(id_map.get(key))
      if ch:
          await deny_connect_permissions(ch, guild)
          resolved[key] = ch
  \<close>
\<close>

definition id_map :: "bot_state \<Rightarrow> (string \<times> int option) list" where
  "id_map s =
     [(''subs'', VC_SUBS_ID s), (''views'', VC_VIEWS_ID s), (''videos'', VC_VIDEOS_ID s),
      (''goal'', VC_GOAL_ID s), (''members'', VC_MEMBERS_ID s), (''live'', VC_LIVE_ID s)]"

fun resolve_by_id ::
  "guild \<Rightarrow> bot_state \<Rightarrow> (string \<times> string) list \<Rightarrow> (string \<times> channel) list \<Rightarrow>
   (string \<times> channel) list \<times> action list" where
  "resolve_by_id g s [] resolved = (resolved, [])"
| "resolve_by_id g s ((key, default_name) # ts) resolved =
     (case by_id g (case map_of (id_map s) key of None \<Rightarrow> None | Some i \<Rightarrow> i) of
        None \<Rightarrow> resolve_by_id g s ts resolved
      | Some ch \<Rightarrow>
          (case resolve_by_id g s ts (dict_set key ch resolved) of
             (resolved', tr) \<Rightarrow> (resolved', deny_connect_permissions ch @ tr)))"

text \<open>
  \<^verbatim>\<open>
  for key, default_name in targets:
      if key in resolved:
          continue
      existing = None
      if key == "live":
          for live_prefix in ("(green) LIVE", "(red) OFFLINE"):
              existing = find_vc_by_name_or_prefix(live_prefix)
              if existing:
                  break
          if not existing:
              existing = find_vc_by_name_or_prefix(default_name)
      else:
          existing = find_vc_by_name_or_prefix(default_name)
      if existing is None:
          try:
              vc = await guild.create_voice_channel(name=default_name, category=category, ...)
              await deny_connect_permissions(vc, guild)
              resolved[key] = vc
          except discord.Forbidden: ...; continue
          except discord.HTTPException as e: ...; continue
      else:
          await deny_connect_permissions(existing, guild)
          resolved[key] = existing
  \<close>
\<close>

definition find_existing :: "guild \<Rightarrow> channel option \<Rightarrow> string \<Rightarrow> string \<Rightarrow> channel option" where
  "find_existing g category key default_name =
     (if key = ''live''
      then (case find_vc_by_name_or_prefix g category (sym_green @ '' LIVE'') of
              Some ch \<Rightarrow> Some ch
            | None \<Rightarrow>
                (case find_vc_by_name_or_prefix g category (sym_red @ '' OFFLINE'') of
                   Some ch \<Rightarrow> Some ch
                 | None \<Rightarrow> find_vc_by_name_or_prefix g category default_name))
      else find_vc_by_name_or_prefix g category default_name)"

fun discover_or_create ::
  "env \<Rightarrow> guild \<Rightarrow> channel option \<Rightarrow> (string \<times> string) list \<Rightarrow> (string \<times> channel) list \<Rightarrow>
   (string \<times> channel) list \<times> action list" where
  "discover_or_create w g category [] resolved = (resolved, [])"
| "discover_or_create w g category ((key, default_name) # ts) resolved =
     (if map_of resolved key \<noteq> None then discover_or_create w g category ts resolved
      else case find_existing g category key default_name of
        Some existing \<Rightarrow>
          (case discover_or_create w g category ts (dict_set key existing resolved) of
             (resolved', tr) \<Rightarrow> (resolved', deny_connect_permissions existing @ tr))
      | None \<Rightarrow>
          (let create = CreateVoiceChannel default_name (map_option ch_id category)
           in case discord w create of
                ApiOk \<Rightarrow>
                  (case discover_or_create w g category ts
                          (dict_set key (created w create) resolved) of
                     (resolved', tr) \<Rightarrow>
                       (resolved', create # deny_connect_permissions (created w create) @ tr))
              | Forbidden \<Rightarrow>
                  (case discover_or_create w g category ts resolved of
                     (resolved', tr) \<Rightarrow> (resolved', create # tr))
              | HTTPException \<Rightarrow>
                  (case discover_or_create w g category ts resolved of
                     (resolved', tr) \<Rightarrow> (resolved', create # tr))))"

text \<open>
  \<^verbatim>\<open>
  VC_SUBS_ID = resolved.get("subs").id if resolved.get("subs") else VC_SUBS_ID
  ... (views, videos, goal, members, live)
  _id_cache.update({
      "subs": VC_SUBS_ID, "views": VC_VIEWS_ID, "videos": VC_VIDEOS_ID,
      "goal": VC_GOAL_ID, "members": VC_MEMBERS_ID, "live": VC_LIVE_ID
  })
  save_ids(_id_cache)
  \<close>
\<close>

definition new_id :: "(string \<times> channel) list \<Rightarrow> string \<Rightarrow> int option \<Rightarrow> int option" where
  "new_id resolved key old =
     (case map_of resolved key of Some ch \<Rightarrow> Some (ch_id ch) | None \<Rightarrow> old)"

definition store_ids :: "(string \<times> channel) list \<Rightarrow> bot_state \<Rightarrow> bot_state" where
  "store_ids resolved s =
     (let s' = s\<lparr>VC_SUBS_ID := new_id resolved ''subs'' (VC_SUBS_ID s),
                  VC_VIEWS_ID := new_id resolved ''views'' (VC_VIEWS_ID s),
                  VC_VIDEOS_ID := new_id resolved ''videos'' (VC_VIDEOS_ID s),
                  VC_GOAL_ID := new_id resolved ''goal'' (VC_GOAL_ID s),
                  VC_MEMBERS_ID := new_id resolved ''members'' (VC_MEMBERS_ID s),
                  VC_LIVE_ID := new_id resolved ''live'' (VC_LIVE_ID s)\<rparr>
      in s'\<lparr>id_cache := foldl (\<lambda>c (k, v). dict_set k v c) (id_cache s') (id_map s')\<rparr>)"

definition ensure_stats_voice_channels ::
  "config \<Rightarrow> env \<Rightarrow> guild \<Rightarrow> bot_state \<Rightarrow> disk \<Rightarrow> outcome" where
  "ensure_stats_voice_channels cfg w g s d =
     (case resolve_category cfg w g of
        (category, tr0) \<Rightarrow>
          (case resolve_by_id g s targets [] of
             (resolved1, tr1) \<Rightarrow>
               (case discover_or_create w g category targets resolved1 of
                  (resolved, tr2) \<Rightarrow>
                    (let s' = store_ids resolved s
                     in case save_ids w d (id_cache s') of
                          (d', tr3) \<Rightarrow> returns s' d' (tr0 @ tr1 @ tr2 @ tr3)))))"

text \<open>The stores written in a trace, in order.\<close>

fun stores_written :: "action list \<Rightarrow> (string \<times> int) list list" where
  "stores_written [] = []"
| "stores_written (WriteChannelIds ids # tr) = ids # stores_written tr"
| "stores_written (a # tr) = stores_written tr"

text \<open>
  A run of the process on the store: the module's start, then any number of calls of
  \<^verbatim>\<open>ensure_stats_voice_channels\<close> (from \<^verbatim>\<open>on_ready\<close> and from the statistics loop), each with
  the guild and the answers of the outside world at that time.  The result is the final
  globals and files and all stores written.
\<close>

fun ensure_all ::
  "config \<Rightarrow> (env \<times> guild) list \<Rightarrow> bot_state \<Rightarrow> disk \<Rightarrow>
   bot_state \<times> disk \<times> (string \<times> int) list list" where
  "ensure_all cfg [] s d = (s, d, [])"
| "ensure_all cfg ((w, g) # ws) s d =
     (let r = ensure_stats_voice_channels cfg w g s d
      in case ensure_all cfg ws (st r) (dk r) of
           (s', d', written) \<Rightarrow> (s', d', stores_written (trace r) @ written))"

definition run_store :: "config \<Rightarrow> (env \<times> guild) list \<Rightarrow> disk \<Rightarrow>
   bot_state \<times> disk \<times> (string \<times> int) list list" where
  "run_store cfg ws d = ensure_all cfg ws (module_init d) d"

section \<open>Concrete inputs\<close>

text \<open>A stored entry with a thumbnail, and a later observation of it without one.\<close>

definition ex_stored :: entry where
  "ex_stored = [''id'' \<mapsto> PStr ''a'', ''title'' \<mapsto> PStr ''T1'', ''link'' \<mapsto> PStr ''L1'',
                ''thumb'' \<mapsto> PStr ''t.jpg'']"

definition ex_incoming :: entry where
  "ex_incoming = [''id'' \<mapsto> PStr ''a'', ''title'' \<mapsto> PStr ''T2'', ''link'' \<mapsto> PStr ''L1'',
                  ''thumb'' \<mapsto> PNone]"


text \<open>A feed of two candidates: one without a title, one without a link.\<close>

definition ex_entry_a :: element where
  "ex_entry_a =
     Element (atom_ns @ ''entry'') [] None
       [Element (yt_ns @ ''videoId'') [] (Some ''a'') [],
        Element (atom_ns @ ''link'') [(''rel'', ''alternate''), (''href'', ''L1'')] None []]"

definition ex_entry_b :: element where
  "ex_entry_b =
     Element (atom_ns @ ''entry'') [] None
       [Element (yt_ns @ ''videoId'') [] (Some ''b'') [],
        Element (atom_ns @ ''title'') [] (Some ''T2'') []]"

definition ex_feed :: element where
  "ex_feed = Element (atom_ns @ ''feed'') [] None [ex_entry_a, ex_entry_b]"


text \<open>
  A guild with the category, the six display channels, a text channel for reminders and
  one for alerts; a configuration and globals that point at them.
\<close>

definition ex_voice :: "int \<Rightarrow> string \<Rightarrow> channel" where
  "ex_voice i name =
     \<lparr>ch_id = i, ch_kind = VoiceChannel, ch_name = name, ch_category_id = Some 10,
      ow_view_channel = Some True, ow_connect = Some False\<rparr>"

definition ex_other :: "int \<Rightarrow> channel_kind \<Rightarrow> string \<Rightarrow> channel" where
  "ex_other i kind name =
     \<lparr>ch_id = i, ch_kind = kind, ch_name = name, ch_category_id = None,
      ow_view_channel = None, ow_connect = None\<rparr>"

definition ex_guild :: guild where
  "ex_guild =
     \<lparr>g_channels =
        [ex_other 10 CategoryChannel ''YouTube Stats'',
         ex_voice 11 (sym_bar_chart @ '' Subs: 100''),
         ex_voice 12 (sym_eye @ '' Views: 200''),
         ex_voice 13 (sym_film @ '' Videos: 5''),
         ex_voice 14 (sym_target @ '' Goal: 1,000''),
         ex_voice 15 (sym_people @ '' Members: 3''),
         ex_voice 16 (sym_red @ '' OFFLINE''),
         ex_other 50 TextChannel ''reminders'',
         ex_other 60 TextChannel ''alerts''],
      member_count = 3\<rparr>"

definition ex_cfg :: config where
  "ex_cfg =
     \<lparr>GUILD_ID = 1, YOUTUBE_CHANNEL_ID = Some ''UC1'', VOICE_CATEGORY_NAME = ''YouTube Stats'',
      SUBS_GOAL = 1000, LIVE_ALERT_CHANNEL_ID = 60, REMINDER_CHANNEL_ID = 50\<rparr>"

definition ex_env :: env where
  "ex_env =
     \<lparr>get_guild = Some ex_guild, http_get = (\<lambda>url. Some ''<feed/>''),
      fromstring = (\<lambda>body. Some ex_feed), discord = (\<lambda>a. ApiOk),
      created = (\<lambda>a. ex_voice 99 ''new''), rss_write = Written, ids_write = Written,
      debug_write_ok = True, shuffle_draw = (\<lambda>i. 0), randint_draw = 0\<rparr>"

definition ex_state :: bot_state where
  "ex_state =
     \<lparr>VC_SUBS_ID = Some 11, VC_VIEWS_ID = Some 12, VC_VIDEOS_ID = Some 13,
      VC_GOAL_ID = Some 14, VC_MEMBERS_ID = Some 15, VC_LIVE_ID = Some 16,
      last_stats = None, last_members = None, last_live_state = None,
      reminder_queue = [], id_cache = []\<rparr>"

definition ex_disk :: disk where
  "ex_disk = \<lparr>rss_cache_file = RssAbsent, channel_id_file = IdsAbsent, debug_live_html = None\<rparr>"











text \<open>Globals after a broadcast of (100, 200, 5), and a world in which every call is refused.\<close>

definition ex_state_prev :: bot_state where
  "ex_state_prev = ex_state\<lparr>last_stats := Some (100, 200, 5)\<rparr>"

definition ex_env_forbidden :: env where
  "ex_env_forbidden = ex_env\<lparr>discord := (\<lambda>a. Forbidden)\<rparr>"

text \<open>
  Three live pages: one without any marker, one whose canonical link is a watch page, one
  whose canonical link is the channel page; a world serving each, the second one failing
  every other read.
\<close>

definition ex_blank_page :: string where
  "ex_blank_page = ''<html></html>''"

definition ex_watch_page :: string where
  "ex_watch_page =
     ''<link rel='' @ [dq] @ ''canonical'' @ [dq] @ '' href='' @ [dq] @ ''/watch?v=a'' @ [dq] @ ''>''"

definition ex_channel_page :: string where
  "ex_channel_page =
     ''<link rel='' @ [dq] @ ''canonical'' @ [dq] @ '' href='' @ [dq] @ ''/channel/UC1'' @ [dq] @ ''>''"

definition ex_env_blank :: env where
  "ex_env_blank = ex_env\<lparr>http_get := (\<lambda>url. Some ex_blank_page)\<rparr>"

definition ex_env_watch :: env where
  "ex_env_watch =
     ex_env\<lparr>http_get := (\<lambda>url. if url = YTLIVE_URL ''UC1'' then Some ex_watch_page else None)\<rparr>"

definition ex_env_channel :: env where
  "ex_env_channel = ex_env\<lparr>http_get := (\<lambda>url. Some ex_channel_page)\<rparr>"

text \<open>The world of the page without markers, with a diagnostic file that cannot be written.\<close>

definition ex_env_readonly :: env where
  "ex_env_readonly = ex_env_blank\<lparr>debug_write_ok := False\<rparr>"

definition ex_state_live :: bot_state where
  "ex_state_live = ex_state\<lparr>last_live_state := Some Live\<rparr>"

text \<open>A disk whose channel id file holds one entry under a key that is no role.\<close>

text \<open>
  Channel id files with a string value: \<^verbatim>\<open>"42"\<close>, the same number in Arabic-Indic digits,
  and a superscript two, each beside a second entry.
\<close>

definition ex_ids_ascii :: ids_file where
  "ex_ids_ascii = IdsObject [(''subs'', JStr [52, 50]), (''views'', JInt 12)]"

definition ex_ids_arabic :: ids_file where
  "ex_ids_arabic = IdsObject [(''subs'', JStr [1636, 1634]), (''views'', JInt 12)]"

definition ex_ids_superscript :: ids_file where
  "ex_ids_superscript = IdsObject [(''subs'', JStr [178]), (''views'', JInt 12)]"

definition ex_disk_extra :: disk where
  "ex_disk_extra = ex_disk\<lparr>channel_id_file := IdsObject [(''extra'', JInt 7)]\<rparr>"

section \<open>The merge keeps what an incoming entry does not bring\<close>

lemma map_of_dict_set: "map_of (dict_set k v d) = (map_of d)(k \<mapsto> v)"
  by (induction d) (auto simp: fun_eq_iff)

lemma dict_update_field:
  "dict_update s (truthy_items e) k = (if field_empty e k then s k else e k)"
  by (simp add: dict_update_def truthy_items_def field_empty_def map_add_def
      split: option.splits)

lemma map_fst_dict_set:
  "map_of d k = Some s \<Longrightarrow> map fst (dict_set k v d) = map fst d"
  by (induction d) (auto split: if_splits)

lemma accumulate_one:
  assumes "e ''id'' = Some vid"
  shows "accumulate_from_rss cache [e] =
     (case map_of cache vid of
        None \<Rightarrow> Inr (dict_set vid e cache, 1)
      | Some stored \<Rightarrow> Inr (dict_set vid (dict_update stored (truthy_items e)) cache, 0))"
  using assms by (simp add: accumulate_from_rss_def split: option.splits)

lemma thumb_after_two:
  assumes "e1 ''id'' = Some v" "e2 ''id'' = Some v"
    "\<not> field_empty e1 ''thumb''" "field_empty e2 ''thumb''"
  shows "\<exists>c1 n1 c2 n2 m.
     accumulate_from_rss c [e1] = Inr (c1, n1) \<and> accumulate_from_rss c1 [e2] = Inr (c2, n2) \<and>
     accumulate_from_rss c [e1, e2] = Inr (c2, n1) \<and>
     map_of c2 v = Some m \<and> m ''thumb'' = e1 ''thumb''"
proof (cases "map_of c v")
  case None
  let ?c1 = "dict_set v e1 c"
  let ?m = "dict_update e1 (truthy_items e2)"
  have a: "accumulate_from_rss c [e1] = Inr (?c1, 1)"
    using assms(1) None by (simp add: accumulate_one)
  have b: "accumulate_from_rss ?c1 [e2] = Inr (dict_set v ?m ?c1, 0)"
    using assms(2) by (simp add: accumulate_one map_of_dict_set)
  have ab: "accumulate_from_rss c [e1, e2] = Inr (dict_set v ?m ?c1, 1)"
    using assms(1,2) None by (simp add: accumulate_from_rss_def map_of_dict_set)
  have l: "map_of (dict_set v ?m ?c1) v = Some ?m"
    by (simp add: map_of_dict_set)
  have t: "?m ''thumb'' = e1 ''thumb''"
    using assms(4) by (simp add: dict_update_field)
  from a b ab l t show ?thesis by blast
next
  case (Some s)
  let ?s1 = "dict_update s (truthy_items e1)"
  let ?c1 = "dict_set v ?s1 c"
  let ?m = "dict_update ?s1 (truthy_items e2)"
  have a: "accumulate_from_rss c [e1] = Inr (?c1, 0)"
    using assms(1) Some by (simp add: accumulate_one)
  have b: "accumulate_from_rss ?c1 [e2] = Inr (dict_set v ?m ?c1, 0)"
    using assms(2) by (simp add: accumulate_one map_of_dict_set)
  have ab: "accumulate_from_rss c [e1, e2] = Inr (dict_set v ?m ?c1, 0)"
    using assms(1,2) Some by (simp add: accumulate_from_rss_def map_of_dict_set)
  have l: "map_of (dict_set v ?m ?c1) v = Some ?m"
    by (simp add: map_of_dict_set)
  have t: "?m ''thumb'' = e1 ''thumb''"
    using assms(3,4) by (simp add: dict_update_field)
  from a b ab l t show ?thesis by blast
qed

text \<open>
  Claim C3.  When the id of an incoming entry is already in the cache, the merge adds
  nothing, keeps every other cache entry and the key order, and sets each field of the
  stored entry to the incoming value exactly when that value is non-empty; a stored
  non-empty thumbnail survives an incoming entry whose thumbnail is empty or absent.
  Merging two observations of one id, the second without a thumbnail, in two calls in a
  row or as two entries of one call, leaves the thumbnail of the first in the cache,
  whatever the cache held before.
\<close>

theorem accumulate_partial_merge:
  "(e ''id'' = Some vid \<and> map_of cache vid = Some stored \<longrightarrow>
      (\<exists>cache' merged.
         accumulate_from_rss cache [e] = Inr (cache', 0) \<and>
         map_of cache' vid = Some merged \<and>
         (\<forall>k. k \<noteq> vid \<longrightarrow> map_of cache' k = map_of cache k) \<and>
         map fst cache' = map fst cache \<and>
         (\<forall>f. merged f = (if field_empty e f then stored f else e f)) \<and>
         (\<not> field_empty stored ''thumb'' \<and> field_empty e ''thumb'' \<longrightarrow>
            merged ''thumb'' = stored ''thumb'')))
   \<and>
   (e1 ''id'' = Some v \<and> e2 ''id'' = Some v \<and>
    \<not> field_empty e1 ''thumb'' \<and> field_empty e2 ''thumb'' \<longrightarrow>
      (\<exists>c1 n1 c2 n2 m.
         accumulate_from_rss c [e1] = Inr (c1, n1) \<and>
         accumulate_from_rss c1 [e2] = Inr (c2, n2) \<and>
         accumulate_from_rss c [e1, e2] = Inr (c2, n1) \<and>
         map_of c2 v = Some m \<and> m ''thumb'' = e1 ''thumb''))"
proof (rule conjI; rule impI)
  assume h: "e ''id'' = Some vid \<and> map_of cache vid = Some stored"
  let ?m = "dict_update stored (truthy_items e)"
  let ?c = "dict_set vid ?m cache"
  have run: "accumulate_from_rss cache [e] = Inr (?c, 0)"
    using h by (simp add: accumulate_one)
  have look: "map_of ?c vid = Some ?m"
    by (simp add: map_of_dict_set)
  have others: "\<forall>k. k \<noteq> vid \<longrightarrow> map_of ?c k = map_of cache k"
    by (simp add: map_of_dict_set)
  have keys: "map fst ?c = map fst cache"
    using h by (simp add: map_fst_dict_set)
  have fields: "\<forall>f. ?m f = (if field_empty e f then stored f else e f)"
    by (simp add: dict_update_field)
  have thumb: "\<not> field_empty stored ''thumb'' \<and> field_empty e ''thumb'' \<longrightarrow>
      ?m ''thumb'' = stored ''thumb''"
    by (simp add: dict_update_field)
  show "\<exists>cache' merged.
         accumulate_from_rss cache [e] = Inr (cache', 0) \<and>
         map_of cache' vid = Some merged \<and>
         (\<forall>k. k \<noteq> vid \<longrightarrow> map_of cache' k = map_of cache k) \<and>
         map fst cache' = map fst cache \<and>
         (\<forall>f. merged f = (if field_empty e f then stored f else e f)) \<and>
         (\<not> field_empty stored ''thumb'' \<and> field_empty e ''thumb'' \<longrightarrow>
            merged ''thumb'' = stored ''thumb'')"
    using run look others keys fields thumb by blast
next
  assume "e1 ''id'' = Some v \<and> e2 ''id'' = Some v \<and>
    \<not> field_empty e1 ''thumb'' \<and> field_empty e2 ''thumb''"
  then have "e1 ''id'' = Some v" "e2 ''id'' = Some v"
    "\<not> field_empty e1 ''thumb''" "field_empty e2 ''thumb''"
    by simp_all
  then show "\<exists>c1 n1 c2 n2 m.
         accumulate_from_rss c [e1] = Inr (c1, n1) \<and>
         accumulate_from_rss c1 [e2] = Inr (c2, n2) \<and>
         accumulate_from_rss c [e1, e2] = Inr (c2, n1) \<and>
         map_of c2 v = Some m \<and> m ''thumb'' = e1 ''thumb''"
    by (rule thumb_after_two)
qed

theorem accumulate_partial_merge_witness:
  "ex_incoming ''id'' = Some (PStr ''a'') \<and>
   map_of [(PStr ''a'', ex_stored)] (PStr ''a'') = Some ex_stored \<and>
   ex_stored ''id'' = Some (PStr ''a'') \<and>
   \<not> field_empty ex_stored ''thumb'' \<and> field_empty ex_incoming ''thumb'' \<and>
   (\<exists>cache' merged.
      accumulate_from_rss [(PStr ''a'', ex_stored)] [ex_incoming] = Inr (cache', 0) \<and>
      map_of cache' (PStr ''a'') = Some merged \<and>
      merged ''title'' = Some (PStr ''T2'') \<and>
      merged ''thumb'' = Some (PStr ''t.jpg'')) \<and>
   (\<exists>c2 n m. accumulate_from_rss [] [ex_stored, ex_incoming] = Inr (c2, n) \<and>
      map_of c2 (PStr ''a'') = Some m \<and> m ''thumb'' = Some (PStr ''t.jpg''))"
proof -
  have h: "ex_incoming ''id'' = Some (PStr ''a'')"
    "map_of [(PStr ''a'', ex_stored)] (PStr ''a'') = Some ex_stored"
    "ex_stored ''id'' = Some (PStr ''a'')"
    "\<not> field_empty ex_stored ''thumb''" "field_empty ex_incoming ''thumb''"
    by (simp_all add: ex_stored_def ex_incoming_def field_empty_def)
  have v: "ex_stored ''thumb'' = Some (PStr ''t.jpg'')"
    "ex_incoming ''title'' = Some (PStr ''T2'')" "\<not> field_empty ex_incoming ''title''"
    by (simp_all add: ex_stored_def ex_incoming_def field_empty_def)
  note T = accumulate_partial_merge [of ex_incoming "PStr ''a''" "[(PStr ''a'', ex_stored)]"
      ex_stored ex_stored "PStr ''a''" ex_incoming "[]"]
  from T h obtain cache' merged where
    a: "accumulate_from_rss [(PStr ''a'', ex_stored)] [ex_incoming] = Inr (cache', 0)"
      "map_of cache' (PStr ''a'') = Some merged"
      "\<forall>f. merged f = (if field_empty ex_incoming f then ex_stored f else ex_incoming f)"
    by blast
  from a(3) h v have a': "merged ''title'' = Some (PStr ''T2'')"
    "merged ''thumb'' = Some (PStr ''t.jpg'')"
    by simp_all
  from T h obtain c2 n m where
    b: "accumulate_from_rss [] [ex_stored, ex_incoming] = Inr (c2, n)"
      "map_of c2 (PStr ''a'') = Some m" "m ''thumb'' = ex_stored ''thumb''"
    by blast
  from b(3) v have b': "m ''thumb'' = Some (PStr ''t.jpg'')" by simp
  from h a(1,2) a' b(1,2) b' show ?thesis by blast
qed

section \<open>The feed parser accepts an entry by its id and link\<close>










section \<open>The cache file is written when the merge added an entry\<close>







lemma returns_fields:
  "st (returns s d tr) = s" "dk (returns s d tr) = d" "trace (returns s d tr) = tr"
  "raised (returns s d tr) = None"
  "st ((returns s d tr)\<lparr>raised := None\<rparr>) = s" "dk ((returns s d tr)\<lparr>raised := None\<rparr>) = d"
  "trace ((returns s d tr)\<lparr>raised := None\<rparr>) = tr"
  "raised ((returns s d tr)\<lparr>raised := None\<rparr>) = None"
  by (simp_all add: returns_def)

lemma raises_fields:
  "st (raises e s d tr) = s" "dk (raises e s d tr) = d" "trace (raises e s d tr) = tr"
  "raised (raises e s d tr) = Some e"
  by (simp_all add: raises_def)






section \<open>One reminder cycle keeps the queue\<close>









text \<open>
  A dictionary without an id field: \<^verbatim>\<open>entry["id"]\<close> raises after the pop, so the cycle
  ends with the exception and the queue is one entry shorter.
\<close>

lemma reminder_loop_missing_id:
  assumes "REMINDER_CHANNEL_ID cfg \<noteq> 0" "get_guild w = Some g"
    "get_channel g (REMINDER_CHANNEL_ID cfg) = Some ch" "ch_kind ch = TextChannel"
    "reminder_queue s \<noteq> []" "last (reminder_queue s) ''id'' = None"
  shows "reminder_loop cfg w s d =
           raises KeyError (s\<lparr>reminder_queue := butlast (reminder_queue s)\<rparr>) d []"
  using assms by (simp add: reminder_loop_def Let_def)





section \<open>Statistics: change detection and the edits of a changed snapshot\<close>

lemma edits_append: "edits (xs @ ys) = edits xs @ edits ys"
  by (induction xs rule: edits.induct) simp_all

lemma edits_deny: "edits (deny_connect_permissions ch) = []"
  by (simp add: deny_connect_permissions_def)

lemma get_channel_id: "get_channel g i = Some ch \<Longrightarrow> ch_id ch = i"
  by (auto simp: get_channel_def find_Some_iff)

lemma update_loop_skip:
  "\<not> resolves g i \<Longrightarrow> update_loop w g ((i, name) # us) = update_loop w g us"
  by (cases i) (auto simp: resolves_def split: option.splits)

lemma update_loop_edit:
  assumes "resolves g (Some j)"
  shows "edits (update_loop w g ((Some j, name) # us)) = (j, name) # edits (update_loop w g us)"
proof -
  from assms obtain ch where ch: "j \<noteq> 0" "get_channel g j = Some ch" "ch_kind ch = VoiceChannel"
    by (auto simp: resolves_def split: option.splits)
  have id: "ch_id ch = j" using ch(2) by (rule get_channel_id)
  show ?thesis
    using ch id
    by (cases "discord w (EditName j name)") (simp_all add: edits_append edits_deny)
qed

lemma edits_update_loop:
  "edits (update_loop w g us) = [(j, name). (Some j, name) \<leftarrow> us, resolves g (Some j)]"
proof (induction us)
  case Nil
  show ?case by simp
next
  case (Cons u us)
  obtain i name where u: "u = (i, name)" by (cases u)
  show ?case
  proof (cases "resolves g i")
    case False
    then have "update_loop w g (u # us) = update_loop w g us"
      unfolding u by (rule update_loop_skip)
    with False Cons show ?thesis
      by (cases i) (simp_all add: u del: update_loop.simps)
  next
    case True
    then obtain j where j: "i = Some j" by (cases i) (simp_all add: resolves_def)
    with True Cons show ?thesis
      by (simp add: u update_loop_edit del: update_loop.simps)
  qed
qed

lemma stats_updates_ids:
  "stats_updates cfg (s\<lparr>last_stats := x\<rparr>) stats = stats_updates cfg s stats"
  by (simp add: stats_updates_def)

lemma update_changed:
  "last_stats s \<noteq> Some stats \<Longrightarrow>
     update_stats_channels cfg w g s stats =
       (s\<lparr>last_stats := Some stats\<rparr>, update_loop w g (stats_updates cfg s stats))"
  by (auto simp: update_stats_channels_def Let_def stats_updates_ids)

lemma update_unchanged:
  "last_stats s = Some stats \<Longrightarrow> update_stats_channels cfg w g s stats = (s, [])"
  by (simp add: update_stats_channels_def)

lemma update_twice:
  "update_stats_channels cfg w' g' (fst (update_stats_channels cfg w g s stats)) stats =
     (fst (update_stats_channels cfg w g s stats), [])"
  by (cases "last_stats s = Some stats") (simp_all add: update_changed update_unchanged)

lemma update_loop_all_fail:
  assumes "\<forall>a. discord w a \<noteq> ApiOk"
  shows "update_loop w g us =
           [EditName j name. (Some j, name) \<leftarrow> us, resolves g (Some j)]"
proof (induction us)
  case Nil
  show ?case by simp
next
  case (Cons u us)
  obtain i name where u: "u = (i, name)" by (cases u)
  show ?case
  proof (cases "resolves g i")
    case False
    then have "update_loop w g (u # us) = update_loop w g us"
      unfolding u by (rule update_loop_skip)
    with False Cons show ?thesis
      by (cases i) (simp_all add: u del: update_loop.simps)
  next
    case True
    then obtain j ch where j: "i = Some j" "j \<noteq> 0" "get_channel g j = Some ch"
      "ch_kind ch = VoiceChannel"
      by (cases i) (auto simp: resolves_def split: option.splits)
    have id: "ch_id ch = j" using j(3) by (rule get_channel_id)
    have "discord w (EditName j name) \<noteq> ApiOk" using assms by simp
    then have "update_loop w g (u # us) = EditName j name # update_loop w g us"
      using j id by (cases "discord w (EditName j name)") (simp_all add: u)
    with True Cons show ?thesis
      by (simp add: u j(1) del: update_loop.simps)
  qed
qed

lemma ex_resolves:
  "resolves ex_guild (Some 11)" "resolves ex_guild (Some 12)" "resolves ex_guild (Some 13)"
  "resolves ex_guild (Some 14)"
  by (simp_all add: resolves_def get_channel_def ex_guild_def ex_other_def ex_voice_def)

lemma ex_fmt: "fmt_num 101 = ''101''" "fmt_num 200 = ''200''" "fmt_num 5 = ''5''"
  "fmt_num 1000 = ''1,000''" "fmt_num 100 = ''100''"
  by code_simp+

lemma ex_updates:
  "stats_updates ex_cfg ex_state_prev (101, 200, 5) =
     [(Some 11, sym_bar_chart @ '' Subs: 101''), (Some 12, sym_eye @ '' Views: 200''),
      (Some 13, sym_film @ '' Videos: 5''), (Some 14, sym_target @ '' Goal: 1,000'')]"
  by (simp add: stats_updates_def ex_state_prev_def ex_state_def ex_cfg_def ex_fmt)

text \<open>
  Claim C4.  The update is decided by comparing the whole tuple with the stored one.  When
  they are equal the call returns the globals as they were and makes no call at all.
  When they differ, and so on the first observation, when nothing is stored, the new
  tuple is stored and the rename edits are issued.  A second call with the same tuple,
  whatever the guild and the outcomes of the calls, changes nothing and makes no call.
\<close>

theorem stats_change_detector:
  "(last_stats s = Some stats \<longrightarrow> update_stats_channels cfg w g s stats = (s, [])) \<and>
   (last_stats s \<noteq> Some stats \<longrightarrow>
      fst (update_stats_channels cfg w g s stats) = s\<lparr>last_stats := Some stats\<rparr> \<and>
      edits (snd (update_stats_channels cfg w g s stats)) =
        [(j, name). (Some j, name) \<leftarrow> stats_updates cfg s stats, resolves g (Some j)]) \<and>
   (last_stats s = None \<longrightarrow> last_stats (fst (update_stats_channels cfg w g s stats)) = Some stats) \<and>
   update_stats_channels cfg w' g' (fst (update_stats_channels cfg w g s stats)) stats =
     (fst (update_stats_channels cfg w g s stats), [])"
proof -
  have a: "last_stats s = Some stats \<longrightarrow> update_stats_channels cfg w g s stats = (s, [])"
    by (simp add: update_unchanged)
  have b: "last_stats s \<noteq> Some stats \<longrightarrow>
      fst (update_stats_channels cfg w g s stats) = s\<lparr>last_stats := Some stats\<rparr> \<and>
      edits (snd (update_stats_channels cfg w g s stats)) =
        [(j, name). (Some j, name) \<leftarrow> stats_updates cfg s stats, resolves g (Some j)]"
    by (simp add: update_changed edits_update_loop)
  have c: "last_stats s = None \<longrightarrow>
      last_stats (fst (update_stats_channels cfg w g s stats)) = Some stats"
    by (simp add: update_changed)
  from a b c update_twice show ?thesis by blast
qed

theorem stats_change_detector_witness:
  "last_stats ex_state_prev = Some (100, 200, 5) \<and>
   update_stats_channels ex_cfg ex_env ex_guild ex_state_prev (100, 200, 5) = (ex_state_prev, []) \<and>
   last_stats ex_state = None \<and>
   last_stats (fst (update_stats_channels ex_cfg ex_env ex_guild ex_state (100, 200, 5))) =
     Some (100, 200, 5) \<and>
   map fst (edits (snd (update_stats_channels ex_cfg ex_env ex_guild ex_state (100, 200, 5))))
     = [11, 12, 13, 14] \<and>
   snd (update_stats_channels ex_cfg ex_env ex_guild
          (fst (update_stats_channels ex_cfg ex_env ex_guild ex_state (100, 200, 5)))
          (100, 200, 5)) = []"
proof -
  have p: "last_stats ex_state_prev = Some (100, 200, 5)" "last_stats ex_state = None"
    by (simp_all add: ex_state_prev_def ex_state_def)
  have u: "map fst (stats_updates ex_cfg ex_state (100, 200, 5)) =
      [Some 11, Some 12, Some 13, Some 14]"
    by (simp add: stats_updates_def ex_state_def)
  have e: "map fst [(j, name). (Some j, name) \<leftarrow> stats_updates ex_cfg ex_state (100, 200, 5),
         resolves ex_guild (Some j)] = [11, 12, 13, 14]"
    by (simp add: stats_updates_def ex_state_def ex_resolves)
  let ?r = "update_stats_channels ex_cfg ex_env ex_guild ex_state (100, 200, 5)"
  note T1 = stats_change_detector [of ex_state_prev "(100, 200, 5)" ex_cfg ex_env ex_guild
      ex_env ex_guild]
  note T2 = stats_change_detector [of ex_state "(100, 200, 5)" ex_cfg ex_env ex_guild
      ex_env ex_guild]
  from T1 p have a: "update_stats_channels ex_cfg ex_env ex_guild ex_state_prev (100, 200, 5) =
      (ex_state_prev, [])"
    by blast
  from T2 p have b: "last_stats (fst ?r) = Some (100, 200, 5)" by blast
  from p have "last_stats ex_state \<noteq> Some (100, 200, 5)" by simp
  with T2 have "edits (snd ?r) =
      [(j, name). (Some j, name) \<leftarrow> stats_updates ex_cfg ex_state (100, 200, 5),
         resolves ex_guild (Some j)]"
    by blast
  with e have c: "map fst (edits (snd ?r)) = [11, 12, 13, 14]" by simp
  from T2 have "update_stats_channels ex_cfg ex_env ex_guild (fst ?r) (100, 200, 5) = (fst ?r, [])"
    by blast
  then have d: "snd (update_stats_channels ex_cfg ex_env ex_guild (fst ?r) (100, 200, 5)) = []"
    by (simp only: snd_conv)
  from p a b c d show ?thesis by blast
qed

text \<open>
  Claim C1, as the code has it.  The claim says that a tuple differing from the stored one
  in one component leads to an edit of the surface of that component only.  The code
  compares whole tuples and then renames every statistics surface: with (100, 200, 5)
  stored and (101, 200, 5) fetched it edits the four channels, the views, videos and goal
  channels too.
\<close>

theorem stats_edits_only_changed_counterexample:
  "last_stats ex_state_prev = Some (100, 200, 5) \<and>
   edits (snd (update_stats_channels ex_cfg ex_env ex_guild ex_state_prev (101, 200, 5))) =
     [(11, sym_bar_chart @ '' Subs: 101''), (12, sym_eye @ '' Views: 200''),
      (13, sym_film @ '' Videos: 5''), (14, sym_target @ '' Goal: 1,000'')] \<and>
   map fst (edits (snd (update_stats_channels ex_cfg ex_env ex_guild ex_state_prev (101, 200, 5))))
     \<noteq> [11]"
proof -
  have p: "last_stats ex_state_prev = Some (100, 200, 5)"
    by (simp add: ex_state_prev_def)
  then have "last_stats ex_state_prev \<noteq> Some (101, 200, 5)" by simp
  then have "edits (snd (update_stats_channels ex_cfg ex_env ex_guild ex_state_prev (101, 200, 5))) =
      [(j, name). (Some j, name) \<leftarrow> stats_updates ex_cfg ex_state_prev (101, 200, 5),
         resolves ex_guild (Some j)]"
    by (simp add: update_changed edits_update_loop)
  then have "edits (snd (update_stats_channels ex_cfg ex_env ex_guild ex_state_prev (101, 200, 5))) =
     [(11, sym_bar_chart @ '' Subs: 101''), (12, sym_eye @ '' Views: 200''),
      (13, sym_film @ '' Videos: 5''), (14, sym_target @ '' Goal: 1,000'')]"
    by (simp add: ex_updates ex_resolves)
  with p show ?thesis by simp
qed

text \<open>
  Claim C1, amended.  For every stored tuple and every new tuple that differs from it (in
  one component or in more), the stored value becomes the new tuple, nothing else of the
  globals changes, and exactly one rename edit is issued, in the order subs, views,
  videos, goal, for each of these four surfaces whose id is set, is not zero and is the
  id of a voice channel of the guild, whether or not its own component changed.
\<close>

theorem stats_edits_every_surface:
  "last_stats s = Some prev \<and> prev \<noteq> stats \<longrightarrow>
     fst (update_stats_channels cfg w g s stats) = s\<lparr>last_stats := Some stats\<rparr> \<and>
     edits (snd (update_stats_channels cfg w g s stats)) =
       [(j, name). (Some j, name) \<leftarrow> stats_updates cfg s stats, resolves g (Some j)] \<and>
     map fst (stats_updates cfg s stats) = [VC_SUBS_ID s, VC_VIEWS_ID s, VC_VIDEOS_ID s, VC_GOAL_ID s]"
  by (cases stats) (auto simp: update_changed edits_update_loop stats_updates_def)

theorem stats_edits_every_surface_witness:
  "last_stats ex_state_prev = Some (100, 200, 5) \<and> (100 :: int, 200 :: int, 5 :: int) \<noteq> (101, 200, 5 :: int)  \<and>
   fst (update_stats_channels ex_cfg ex_env ex_guild ex_state_prev (101, 200, 5)) =
     ex_state_prev\<lparr>last_stats := Some (101, 200, 5)\<rparr> \<and>
   map fst (edits (snd (update_stats_channels ex_cfg ex_env ex_guild ex_state_prev (101, 200, 5))))
     = [11, 12, 13, 14]"
proof -
  have p: "last_stats ex_state_prev = Some (100, 200, 5)"
    by (simp add: ex_state_prev_def)
  show ?thesis
    using p stats_edits_every_surface [of ex_state_prev "(100, 200, 5)" "(101, 200, 5)" ex_cfg
        ex_env ex_guild]
    by (simp add: ex_updates ex_resolves)
qed

text \<open>
  Claim C10.  When the fetched tuple differs from the stored one, the new tuple is stored
  whatever the outcomes of the edits are: the globals after the call do not depend on
  them.  If every edit of the cycle is refused, the edits were still attempted, one for
  each resolvable surface; and a later cycle that fetches the same tuple makes no call,
  so the refused broadcast is not tried again with that value.
\<close>

theorem stats_committed_before_edits:
  "last_stats s \<noteq> Some stats \<longrightarrow>
     fst (update_stats_channels cfg w g s stats) = s\<lparr>last_stats := Some stats\<rparr> \<and>
     ((\<forall>a. discord w a \<noteq> ApiOk) \<longrightarrow>
        snd (update_stats_channels cfg w g s stats) =
          [EditName j name. (Some j, name) \<leftarrow> stats_updates cfg s stats, resolves g (Some j)]) \<and>
     update_stats_channels cfg w' g' (fst (update_stats_channels cfg w g s stats)) stats =
       (fst (update_stats_channels cfg w g s stats), [])"
proof
  assume h: "last_stats s \<noteq> Some stats"
  have run: "update_stats_channels cfg w g s stats =
      (s\<lparr>last_stats := Some stats\<rparr>, update_loop w g (stats_updates cfg s stats))"
    using h by (rule update_changed)
  have a: "fst (update_stats_channels cfg w g s stats) = s\<lparr>last_stats := Some stats\<rparr>"
    by (simp add: run)
  have b: "(\<forall>a. discord w a \<noteq> ApiOk) \<longrightarrow>
        snd (update_stats_channels cfg w g s stats) =
          [EditName j name. (Some j, name) \<leftarrow> stats_updates cfg s stats, resolves g (Some j)]"
    by (simp add: run update_loop_all_fail)
  from a b update_twice show
    "fst (update_stats_channels cfg w g s stats) = s\<lparr>last_stats := Some stats\<rparr> \<and>
     ((\<forall>a. discord w a \<noteq> ApiOk) \<longrightarrow>
        snd (update_stats_channels cfg w g s stats) =
          [EditName j name. (Some j, name) \<leftarrow> stats_updates cfg s stats, resolves g (Some j)]) \<and>
     update_stats_channels cfg w' g' (fst (update_stats_channels cfg w g s stats)) stats =
       (fst (update_stats_channels cfg w g s stats), [])"
    by blast
qed

theorem stats_committed_before_edits_witness:
  "last_stats ex_state_prev \<noteq> Some (101, 200, 5) \<and>
   (\<forall>a. discord ex_env_forbidden a \<noteq> ApiOk) \<and>
   last_stats (fst (update_stats_channels ex_cfg ex_env_forbidden ex_guild ex_state_prev
      (101, 200, 5))) = Some (101, 200, 5) \<and>
   snd (update_stats_channels ex_cfg ex_env_forbidden ex_guild ex_state_prev (101, 200, 5)) =
     [EditName 11 (sym_bar_chart @ '' Subs: 101''), EditName 12 (sym_eye @ '' Views: 200''),
      EditName 13 (sym_film @ '' Videos: 5''), EditName 14 (sym_target @ '' Goal: 1,000'')] \<and>
   snd (update_stats_channels ex_cfg ex_env ex_guild
          (fst (update_stats_channels ex_cfg ex_env_forbidden ex_guild ex_state_prev (101, 200, 5)))
          (101, 200, 5)) = []"
proof -
  have p: "last_stats ex_state_prev \<noteq> Some (101, 200, 5)"
    by (simp add: ex_state_prev_def)
  have f: "\<forall>a. discord ex_env_forbidden a \<noteq> ApiOk"
    by (simp add: ex_env_forbidden_def)
  let ?r = "update_stats_channels ex_cfg ex_env_forbidden ex_guild ex_state_prev (101, 200, 5)"
  note T = stats_committed_before_edits [of ex_state_prev "(101, 200, 5)" ex_cfg ex_env_forbidden
      ex_guild ex_env ex_guild]
  from T p have a: "fst ?r = ex_state_prev\<lparr>last_stats := Some (101, 200, 5)\<rparr>" by blast
  from T p f have b: "snd ?r =
      [EditName j name. (Some j, name) \<leftarrow> stats_updates ex_cfg ex_state_prev (101, 200, 5),
         resolves ex_guild (Some j)]"
    by blast
  from T p have c: "update_stats_channels ex_cfg ex_env ex_guild (fst ?r) (101, 200, 5) =
      (fst ?r, [])"
    by blast
  have c': "snd (update_stats_channels ex_cfg ex_env ex_guild (fst ?r) (101, 200, 5)) = []"
    by (simp only: c snd_conv)
  have a': "last_stats (fst ?r) = Some (101, 200, 5)" by (simp add: a)
  have b': "snd ?r =
     [EditName 11 (sym_bar_chart @ '' Subs: 101''), EditName 12 (sym_eye @ '' Views: 200''),
      EditName 13 (sym_film @ '' Videos: 5''), EditName 14 (sym_target @ '' Goal: 1,000'')]"
    by (simp add: b ex_updates ex_resolves)
  from p f a' b' c' show ?thesis by blast
qed

section \<open>Live status: the inconclusive page and the canonical link\<close>

lemma page_flags_quiet:
  "edits (snd (snd (page_flags w d [HttpGet url] html))) = [] \<and>
   alerts (snd (snd (page_flags w d [HttpGet url] html))) = []"
  by (simp add: page_flags_def)

lemma classifier_quiet:
  "edits (snd (snd (yt_is_live_noapi w d cid))) = [] \<and>
   alerts (snd (snd (yt_is_live_noapi w d cid))) = []"
  by (simp add: yt_is_live_noapi_def Let_def page_flags_quiet split: option.splits)

lemma classify_no_marker:
  assumes "http_get w (YTLIVE_URL cid) = Some html" and "no_marker html"
  shows "yt_is_live_noapi w d cid =
     (if debug_write_ok w
      then (Inr None, d\<lparr>debug_live_html := Some html\<rparr>,
            [HttpGet (YTLIVE_URL cid), WriteDebugHtml html])
      else (Inl OSError, d, [HttpGet (YTLIVE_URL cid), WriteDebugHtml html]))"
  using assms
  by (auto simp: yt_is_live_noapi_def Let_def page_flags_def no_marker_def split: option.splits)

lemma live_loop_unresolved:
  assumes "\<forall>state. fst (yt_is_live_noapi w d cid) \<noteq> Inr (Some state)"
    and "YOUTUBE_CHANNEL_ID cfg = Some cid"
  shows "st (live_status_loop_noapi cfg w s d) = s \<and>
         edits (trace (live_status_loop_noapi cfg w s d)) = [] \<and>
         alerts (trace (live_status_loop_noapi cfg w s d)) = []"
proof -
  obtain v d' tr where c: "yt_is_live_noapi w d cid = (v, d', tr)"
    by (cases "yt_is_live_noapi w d cid")
  with classifier_quiet [of w d cid] have q: "edits tr = []" "alerts tr = []" by simp_all
  from assms(1) c have v: "\<forall>state. v \<noteq> Inr (Some state)" by simp
  show ?thesis
    using assms(2) c q v
    by (auto simp: live_status_loop_noapi_def returns_fields raises_fields
        split: option.splits sum.splits)
qed

lemma ex_blank_no_marker: "no_marker ex_blank_page"
  by code_simp

lemma ex_watch_href: "canonical_search ex_watch_page = Some ''/watch?v=a''"
  by code_simp

lemma ex_channel_href: "canonical_search ex_channel_page = Some ''/channel/UC1''"
  by code_simp

lemma ex_href_tests:
  "str_in ''/watch'' ''/watch?v=a''" "\<not> str_in ''/watch'' ''/channel/UC1''"
  "str_in ''/channel/'' ''/channel/UC1''"
  by code_simp+


text \<open>
  On a fetched live page on which no step of the classifier matches, the classifier
  returns the inconclusive answer (\<^verbatim>\<open>None\<close>) when the diagnostic file is written.  In a
  polling cycle whose classification is inconclusive, and in every cycle on such a page,
  the globals, the last live state among them, are as before, and no rename and no
  notification is issued.
\<close>

lemma inconclusive_cycle_keeps_state:
  "(http_get w (YTLIVE_URL cid) = Some html \<and> no_marker html \<and> debug_write_ok w \<longrightarrow>
      yt_is_live_noapi w d cid =
        (Inr None, d\<lparr>debug_live_html := Some html\<rparr>,
         [HttpGet (YTLIVE_URL cid), WriteDebugHtml html]))
   \<and>
   (YOUTUBE_CHANNEL_ID cfg = Some cid \<and>
    (fst (yt_is_live_noapi w d cid) = Inr None \<or>
     http_get w (YTLIVE_URL cid) = Some html \<and> no_marker html) \<longrightarrow>
      st (live_status_loop_noapi cfg w s d) = s \<and>
      edits (trace (live_status_loop_noapi cfg w s d)) = [] \<and>
      alerts (trace (live_status_loop_noapi cfg w s d)) = [])"
proof (rule conjI; rule impI)
  assume "http_get w (YTLIVE_URL cid) = Some html \<and> no_marker html \<and> debug_write_ok w"
  then show "yt_is_live_noapi w d cid =
        (Inr None, d\<lparr>debug_live_html := Some html\<rparr>,
         [HttpGet (YTLIVE_URL cid), WriteDebugHtml html])"
    by (simp add: classify_no_marker)
next
  assume h: "YOUTUBE_CHANNEL_ID cfg = Some cid \<and>
    (fst (yt_is_live_noapi w d cid) = Inr None \<or>
     http_get w (YTLIVE_URL cid) = Some html \<and> no_marker html)"
  have "\<forall>state. fst (yt_is_live_noapi w d cid) \<noteq> Inr (Some state)"
  proof (cases "fst (yt_is_live_noapi w d cid) = Inr None")
    case True
    then show ?thesis by simp
  next
    case False
    with h have "http_get w (YTLIVE_URL cid) = Some html" "no_marker html" by simp_all
    then show ?thesis by (simp add: classify_no_marker)
  qed
  with h show "st (live_status_loop_noapi cfg w s d) = s \<and>
      edits (trace (live_status_loop_noapi cfg w s d)) = [] \<and>
      alerts (trace (live_status_loop_noapi cfg w s d)) = []"
    by (simp add: live_loop_unresolved)
qed

text \<open>
  When the diagnostic file cannot be written, the classifier does not return on such a
  page: the \<^verbatim>\<open>OSError\<close> of \<^verbatim>\<open>open\<close> leaves it, and leaves the polling cycle that called it.
\<close>

lemma dump_failure_raises:
  assumes "http_get w (YTLIVE_URL cid) = Some html" "no_marker html" "\<not> debug_write_ok w"
    and "YOUTUBE_CHANNEL_ID cfg = Some cid" "cid \<noteq> []" "get_guild w = Some g"
    and "VC_LIVE_ID s = Some live_id" "get_channel g live_id = Some ch"
    and "ch_kind ch = VoiceChannel"
  shows "yt_is_live_noapi w d cid =
           (Inl OSError, d, [HttpGet (YTLIVE_URL cid), WriteDebugHtml html])"
    and "live_status_loop_noapi cfg w s d =
           raises OSError s d [HttpGet (YTLIVE_URL cid), WriteDebugHtml html]"
proof -
  show c: "yt_is_live_noapi w d cid =
      (Inl OSError, d, [HttpGet (YTLIVE_URL cid), WriteDebugHtml html])"
    using assms(1-3) by (simp add: classify_no_marker)
  show "live_status_loop_noapi cfg w s d =
      raises OSError s d [HttpGet (YTLIVE_URL cid), WriteDebugHtml html]"
    using assms(4-9) by (simp add: live_status_loop_noapi_def c)
qed

lemma ex_live_channel:
  "YOUTUBE_CHANNEL_ID ex_cfg = Some ''UC1''" "VC_LIVE_ID ex_state_live = Some 16"
  "get_channel ex_guild 16 = Some (ex_voice 16 (sym_red @ '' OFFLINE''))"
  "ch_kind (ex_voice 16 (sym_red @ '' OFFLINE'')) = VoiceChannel"
  "last_live_state ex_state_live = Some Live"
  by (simp_all add: ex_cfg_def ex_state_live_def ex_state_def get_channel_def ex_guild_def
      ex_other_def ex_voice_def)

text \<open>
  Claim C5.  On a live page on which no status marker matches, the classifier is to
  return the inconclusive answer, and the polling cycle is to keep the last live state
  and issue no rename and no notification.  The code does this when it can write the
  page to \<^verbatim>\<open>debug_live.html\<close> (\<open>inconclusive_cycle_keeps_state\<close>); the write has no
  handler.  Here the page \<^verbatim>\<open><html></html>\<close> is fetched while that file cannot be opened for
  writing: the classifier raises \<^verbatim>\<open>OSError\<close> in place of returning, and the polling cycle
  ends with that exception.  The last live state is still Live and no rename and no
  notification is issued.  With a writable file the same page is classified as
  inconclusive and the cycle returns.
\<close>

theorem inconclusive_dump_failure:
  "http_get ex_env_readonly (YTLIVE_URL ''UC1'') = Some ex_blank_page \<and>
   no_marker ex_blank_page \<and>
   debug_write_ok ex_env_readonly = False \<and>
   yt_is_live_noapi ex_env_readonly ex_disk ''UC1'' =
     (Inl OSError, ex_disk, [HttpGet (YTLIVE_URL ''UC1''), WriteDebugHtml ex_blank_page]) \<and>
   fst (yt_is_live_noapi ex_env_readonly ex_disk ''UC1'') \<noteq> Inr None \<and>
   raised (live_status_loop_noapi ex_cfg ex_env_readonly ex_state_live ex_disk) = Some OSError \<and>
   st (live_status_loop_noapi ex_cfg ex_env_readonly ex_state_live ex_disk) = ex_state_live \<and>
   last_live_state (st (live_status_loop_noapi ex_cfg ex_env_readonly ex_state_live ex_disk)) =
     Some Live \<and>
   edits (trace (live_status_loop_noapi ex_cfg ex_env_readonly ex_state_live ex_disk)) = [] \<and>
   alerts (trace (live_status_loop_noapi ex_cfg ex_env_readonly ex_state_live ex_disk)) = [] \<and>
   debug_write_ok ex_env_blank = True \<and>
   fst (yt_is_live_noapi ex_env_blank ex_disk ''UC1'') = Inr None \<and>
   raised (live_status_loop_noapi ex_cfg ex_env_blank ex_state_live ex_disk) = None"
proof -
  have h: "http_get ex_env_readonly (YTLIVE_URL ''UC1'') = Some ex_blank_page"
    "debug_write_ok ex_env_readonly = False" "get_guild ex_env_readonly = Some ex_guild"
    by (simp_all add: ex_env_readonly_def ex_env_blank_def ex_env_def)
  have hb: "http_get ex_env_blank (YTLIVE_URL ''UC1'') = Some ex_blank_page"
    "debug_write_ok ex_env_blank = True" "get_guild ex_env_blank = Some ex_guild"
    by (simp_all add: ex_env_blank_def ex_env_def)
  note c = ex_live_channel
  have a: "yt_is_live_noapi ex_env_readonly ex_disk ''UC1'' =
     (Inl OSError, ex_disk, [HttpGet (YTLIVE_URL ''UC1''), WriteDebugHtml ex_blank_page])"
    using h ex_blank_no_marker by (simp add: classify_no_marker)
  have r: "live_status_loop_noapi ex_cfg ex_env_readonly ex_state_live ex_disk =
      raises OSError ex_state_live ex_disk
        [HttpGet (YTLIVE_URL ''UC1''), WriteDebugHtml ex_blank_page]"
    using h c ex_blank_no_marker
    by (simp add: dump_failure_raises(2) [where g = ex_guild and live_id = 16
          and ch = "ex_voice 16 (sym_red @ '' OFFLINE'')"])
  have ab: "yt_is_live_noapi ex_env_blank ex_disk ''UC1'' =
     (Inr None, ex_disk\<lparr>debug_live_html := Some ex_blank_page\<rparr>,
      [HttpGet (YTLIVE_URL ''UC1''), WriteDebugHtml ex_blank_page])"
    using hb ex_blank_no_marker by (simp add: classify_no_marker)
  have rb: "raised (live_status_loop_noapi ex_cfg ex_env_blank ex_state_live ex_disk) = None"
    using hb c by (simp add: live_status_loop_noapi_def ab returns_fields)
  show ?thesis
    using h hb ex_blank_no_marker c
    by (simp add: a ab r rb raises_fields)
qed

text \<open>
  Claim C6.  When the canonical link of the live page points to a watch page and the read
  of that page fails, the classifier returns Live, after the two reads.  When the link
  does not point to a watch page and points to a channel page, the classifier returns
  Offline and the only read it made is that of the live page.
\<close>

theorem canonical_link_decides:
  "(http_get w (YTLIVE_URL cid) = Some html \<and> canonical_search html = Some href \<and>
    str_in ''/watch'' href \<and> http_get w href = None \<longrightarrow>
      yt_is_live_noapi w d cid =
        (Inr (Some Live), d, [HttpGet (YTLIVE_URL cid), HttpGet href]))
   \<and>
   (http_get w (YTLIVE_URL cid) = Some html \<and> canonical_search html = Some href \<and>
    \<not> str_in ''/watch'' href \<and> str_in ''/channel/'' href \<longrightarrow>
      yt_is_live_noapi w d cid = (Inr (Some Offline), d, [HttpGet (YTLIVE_URL cid)]) \<and>
      fetches (snd (snd (yt_is_live_noapi w d cid))) = [YTLIVE_URL cid])"
  by (simp add: yt_is_live_noapi_def Let_def canonical_watch_def)

theorem canonical_link_decides_witness:
  "http_get ex_env_watch (YTLIVE_URL ''UC1'') = Some ex_watch_page \<and>
   canonical_search ex_watch_page = Some ''/watch?v=a'' \<and> str_in ''/watch'' ''/watch?v=a'' \<and>
   http_get ex_env_watch ''/watch?v=a'' = None \<and>
   fst (yt_is_live_noapi ex_env_watch ex_disk ''UC1'') = Inr (Some Live) \<and>
   http_get ex_env_channel (YTLIVE_URL ''UC1'') = Some ex_channel_page \<and>
   canonical_search ex_channel_page = Some ''/channel/UC1'' \<and>
   \<not> str_in ''/watch'' ''/channel/UC1'' \<and> str_in ''/channel/'' ''/channel/UC1'' \<and>
   fst (yt_is_live_noapi ex_env_channel ex_disk ''UC1'') = Inr (Some Offline) \<and>
   fetches (snd (snd (yt_is_live_noapi ex_env_channel ex_disk ''UC1''))) = [YTLIVE_URL ''UC1'']"
proof -
  have w: "http_get ex_env_watch (YTLIVE_URL ''UC1'') = Some ex_watch_page"
    "http_get ex_env_watch ''/watch?v=a'' = None"
    by (simp_all add: ex_env_watch_def ex_env_def YTLIVE_URL_def)
  have c: "http_get ex_env_channel (YTLIVE_URL ''UC1'') = Some ex_channel_page"
    by (simp add: ex_env_channel_def ex_env_def)
  note T1 = canonical_link_decides [of ex_env_watch "''UC1''" ex_watch_page "''/watch?v=a''" ex_disk]
  note T2 = canonical_link_decides [of ex_env_channel "''UC1''" ex_channel_page "''/channel/UC1''"
      ex_disk]
  from T1 w ex_watch_href ex_href_tests
  have a: "yt_is_live_noapi ex_env_watch ex_disk ''UC1'' =
      (Inr (Some Live), ex_disk, [HttpGet (YTLIVE_URL ''UC1''), HttpGet ''/watch?v=a''])"
    by blast
  from T2 c ex_channel_href ex_href_tests
  have b: "yt_is_live_noapi ex_env_channel ex_disk ''UC1'' =
      (Inr (Some Offline), ex_disk, [HttpGet (YTLIVE_URL ''UC1'')]) \<and>
      fetches (snd (snd (yt_is_live_noapi ex_env_channel ex_disk ''UC1''))) = [YTLIVE_URL ''UC1'']"
    by blast
  from a have a': "fst (yt_is_live_noapi ex_env_watch ex_disk ''UC1'') = Inr (Some Live)" by simp
  from b have b': "fst (yt_is_live_noapi ex_env_channel ex_disk ''UC1'') = Inr (Some Offline)"
    by simp
  from w c ex_watch_href ex_channel_href ex_href_tests a' b' b show ?thesis by blast
qed

section \<open>Channel id store: the keys of the persisted store\<close>

lemma keys_dict_set: "fst ` set (dict_set k v d) = insert k (fst ` set d)"
proof (induction d)
  case Nil
  show ?case by simp
next
  case (Cons p d)
  obtain a b where p: "p = (a, b)" by (cases p)
  show ?case using Cons by (cases "k = a") (auto simp: p)
qed

lemma distinct_dict_set: "distinct (map fst d) \<Longrightarrow> distinct (map fst (dict_set k v d))"
proof (induction d)
  case Nil
  show ?case by simp
next
  case (Cons p d)
  obtain a b where p: "p = (a, b)" by (cases p)
  have "a \<notin> set (map fst (dict_set k v d))" if "k \<noteq> a"
    using Cons.prems that by (simp add: keys_dict_set p)
  with Cons show ?case by (cases "k = a") (simp_all add: p)
qed

lemma distinct_json_object:
  "distinct (map fst acc) \<Longrightarrow> distinct (map fst (json_object acc kvs))"
  by (induction acc kvs rule: json_object.induct) (simp_all add: distinct_dict_set)

lemma keys_accepted_ids: "accepted_ids kvs = Some ids \<Longrightarrow> fst ` set ids \<subseteq> fst ` set kvs"
proof (induction kvs arbitrary: ids rule: accepted_ids.induct)
  case 1
  then show ?case by simp
next
  case (2 k n kvs)
  show ?case
  proof (cases "0 \<le> n")
    case True
    with 2(3) obtain r where r: "accepted_ids kvs = Some r" "ids = (k, n) # r" by auto
    from 2(1) [OF True r(1)] r(2) show ?thesis by auto
  next
    case False
    with 2(2) [OF False] 2(3) show ?thesis by auto
  qed
next
  case (3 k v kvs)
  show ?case
  proof (cases "isdigit v")
    case True
    with 3(3) obtain n r where r: "int_of_digits v = Some n" "accepted_ids kvs = Some r"
      "ids = (k, n) # r"
      by (auto split: option.splits)
    from 3(1) [OF True r(1) r(2)] r(3) show ?thesis by auto
  next
    case False
    with 3(2) [OF False] 3(3) show ?thesis by auto
  qed
next
  case (4 k kvs)
  then show ?case by auto
qed

lemma distinct_accepted_ids:
  "distinct (map fst kvs) \<Longrightarrow> accepted_ids kvs = Some ids \<Longrightarrow> distinct (map fst ids)"
proof (induction kvs arbitrary: ids rule: accepted_ids.induct)
  case 1
  then show ?case by simp
next
  case (2 k n kvs)
  show ?case
  proof (cases "0 \<le> n")
    case True
    with 2(4) obtain r where r: "accepted_ids kvs = Some r" "ids = (k, n) # r" by auto
    from 2(3) have d: "distinct (map fst kvs)" "k \<notin> fst ` set kvs" by auto
    from 2(1) [OF True d(1) r(1)] keys_accepted_ids [OF r(1)] d(2) r(2)
    show ?thesis by auto
  next
    case False
    with 2(2) [OF False] 2(3) 2(4) show ?thesis by simp
  qed
next
  case (3 k v kvs)
  show ?case
  proof (cases "isdigit v")
    case True
    with 3(4) obtain n r where r: "int_of_digits v = Some n" "accepted_ids kvs = Some r"
      "ids = (k, n) # r"
      by (auto split: option.splits)
    from 3(3) have d: "distinct (map fst kvs)" "k \<notin> fst ` set kvs" by auto
    from 3(1) [OF True r(1) d(1) r(2)] keys_accepted_ids [OF r(2)] d(2) r(3)
    show ?thesis by auto
  next
    case False
    with 3(2) [OF False] 3(3) 3(4) show ?thesis by simp
  qed
next
  case (4 k kvs)
  then show ?case by simp
qed

lemma distinct_load_ids: "distinct (map fst (load_ids f))"
proof (cases f)
  case (IdsObject members)
  show ?thesis
  proof (cases "accepted_ids (json_object [] members)")
    case None
    with IdsObject show ?thesis by simp
  next
    case (Some ids)
    have "distinct (map fst (json_object [] members))" by (simp add: distinct_json_object)
    then have "distinct (map fst ids)" using Some by (rule distinct_accepted_ids)
    with IdsObject Some show ?thesis by simp
  qed
qed simp_all

text \<open>
  String values: \<^verbatim>\<open>"42"\<close> is read as 42, in ASCII digits and in Arabic-Indic digits; a
  superscript two passes \<^verbatim>\<open>isdigit\<close> and makes \<^verbatim>\<open>int\<close> raise, so nothing is loaded.
\<close>

lemma ex_load_digit_strings:
  "load_ids ex_ids_ascii = [(''subs'', 42), (''views'', 12)]"
  "load_ids ex_ids_arabic = [(''subs'', 42), (''views'', 12)]"
  "isdigit [178]" "int_of_digits [178] = None"
  "load_ids ex_ids_superscript = []"
  "\<not> isdigit []" "\<not> isdigit [45, 49]"
  by code_simp+

lemma keys_serializable: "fst ` set (serializable ids) \<subseteq> fst ` set ids"
  by (induction ids rule: serializable.induct) auto

lemma distinct_serializable: "distinct (map fst ids) \<Longrightarrow> distinct (map fst (serializable ids))"
proof (induction ids rule: serializable.induct)
  case 1
  show ?case by simp
next
  case (2 k kvs)
  then show ?case by simp
next
  case (3 k v kvs)
  with keys_serializable [of kvs] show ?case by auto
qed

lemma keys_update:
  "fst ` set (foldl (\<lambda>c (k, v). dict_set k v c) c kvs) = fst ` set c \<union> fst ` set kvs"
proof (induction kvs arbitrary: c)
  case Nil
  show ?case by simp
next
  case (Cons p kvs)
  obtain a b where p: "p = (a, b)" by (cases p)
  have "fst ` set (foldl (\<lambda>c (k, v). dict_set k v c) (dict_set a b c) kvs) =
      fst ` set (dict_set a b c) \<union> fst ` set kvs"
    by (rule Cons.IH)
  then show ?case by (simp add: p keys_dict_set)
qed

lemma distinct_update:
  "distinct (map fst c) \<Longrightarrow> distinct (map fst (foldl (\<lambda>c (k, v). dict_set k v c) c kvs))"
proof (induction kvs arbitrary: c)
  case Nil
  then show ?case by simp
next
  case (Cons p kvs)
  obtain a b where p: "p = (a, b)" by (cases p)
  from Cons.prems have "distinct (map fst (dict_set a b c))" by (rule distinct_dict_set)
  then have "distinct (map fst (foldl (\<lambda>c (k, v). dict_set k v c) (dict_set a b c) kvs))"
    by (rule Cons.IH)
  then show ?case by (simp add: p)
qed

lemma id_map_keys: "map fst (id_map s) = roles"
  by (simp add: id_map_def roles_def targets_def)

lemma id_cache_store_ids:
  "id_cache (store_ids resolved s) =
     foldl (\<lambda>c (k, v). dict_set k v c) (id_cache s) (id_map (store_ids resolved s))"
  by (simp add: store_ids_def Let_def id_map_def)

lemma keys_store_ids:
  "fst ` set (id_cache (store_ids resolved s)) = fst ` set (id_cache s) \<union> set roles"
proof -
  have "fst ` set (id_map (store_ids resolved s)) = set roles"
    using id_map_keys [of "store_ids resolved s"] by (metis set_map)
  then show ?thesis
    by (subst id_cache_store_ids) (simp only: keys_update)
qed

lemma distinct_store_ids:
  "distinct (map fst (id_cache s)) \<Longrightarrow> distinct (map fst (id_cache (store_ids resolved s)))"
  by (subst id_cache_store_ids) (rule distinct_update)


lemma stores_written_append: "stores_written (a @ b) = stores_written a @ stores_written b"
  by (induction a rule: stores_written.induct) simp_all

lemma stores_deny: "stores_written (deny_connect_permissions ch) = []"
  by (simp add: deny_connect_permissions_def)

lemma stores_category: "stores_written (snd (resolve_category cfg w g)) = []"
  by (simp add: resolve_category_def split: option.splits api_result.splits)

lemma stores_resolve_by_id: "stores_written (snd (resolve_by_id g s ts res)) = []"
proof (induction ts arbitrary: res)
  case Nil
  show ?case by simp
next
  case (Cons t ts)
  obtain key name where t: "t = (key, name)" by (cases t)
  let ?i = "case map_of (id_map s) key of None \<Rightarrow> None | Some i \<Rightarrow> i"
  show ?case
  proof (cases "by_id g ?i")
    case None
    then show ?thesis by (simp add: t Cons)
  next
    case (Some ch)
    obtain r' tr' where r: "resolve_by_id g s ts (dict_set key ch res) = (r', tr')"
      by (cases "resolve_by_id g s ts (dict_set key ch res)")
    with Cons [of "dict_set key ch res"] have "stores_written tr' = []" by simp
    with Some r show ?thesis
      by (simp add: t stores_written_append stores_deny)
  qed
qed

lemma stores_discover: "stores_written (snd (discover_or_create w g cat ts res)) = []"
proof (induction ts arbitrary: res)
  case Nil
  show ?case by simp
next
  case (Cons t ts)
  obtain key name where t: "t = (key, name)" by (cases t)
  have IH: "stores_written (snd (discover_or_create w g cat ts r)) = []" for r
    by (rule Cons)
  show ?case
  proof (cases "map_of res key \<noteq> None")
    case True
    then show ?thesis by (simp add: t IH)
  next
    case False
    note unresolved = False
    show ?thesis
    proof (cases "find_existing g cat key name")
      case (Some existing)
      obtain r' tr' where r: "discover_or_create w g cat ts (dict_set key existing res) = (r', tr')"
        by (cases "discover_or_create w g cat ts (dict_set key existing res)")
      with IH [of "dict_set key existing res"] have "stores_written tr' = []" by simp
      with Some r unresolved show ?thesis
        by (simp add: t stores_written_append stores_deny)
    next
      case None
      let ?create = "CreateVoiceChannel name (map_option ch_id cat)"
      obtain r1 tr1 where r1: "discover_or_create w g cat ts (dict_set key (created w ?create) res)
          = (r1, tr1)"
        by (cases "discover_or_create w g cat ts (dict_set key (created w ?create) res)")
      obtain r2 tr2 where r2: "discover_or_create w g cat ts res = (r2, tr2)"
        by (cases "discover_or_create w g cat ts res")
      from IH [of "dict_set key (created w ?create) res"] r1 have e1: "stores_written tr1 = []"
        by simp
      from IH [of res] r2 have e2: "stores_written tr2 = []" by simp
      from None unresolved r1 r2 e1 e2 show ?thesis
        by (cases "discord w ?create")
          (simp_all add: t Let_def stores_written_append stores_deny)
    qed
  qed
qed

lemma ensure_outcome:
  "\<exists>resolved.
     st (ensure_stats_voice_channels cfg w g s d) = store_ids resolved s \<and>
     stores_written (trace (ensure_stats_voice_channels cfg w g s d)) =
       [serializable (id_cache (store_ids resolved s))] \<and>
     channel_id_file (dk (ensure_stats_voice_channels cfg w g s d)) =
       write_ids (ids_write w) (channel_id_file d) (serializable (id_cache (store_ids resolved s)))"
proof -
  obtain category tr0 where c: "resolve_category cfg w g = (category, tr0)"
    by (cases "resolve_category cfg w g")
  obtain resolved1 tr1 where r1: "resolve_by_id g s targets [] = (resolved1, tr1)"
    by (cases "resolve_by_id g s targets []")
  obtain resolved tr2 where r2: "discover_or_create w g category targets resolved1 = (resolved, tr2)"
    by (cases "discover_or_create w g category targets resolved1")
  have e0: "stores_written tr0 = []" using stores_category [of cfg w g] c by simp
  have e1: "stores_written tr1 = []" using stores_resolve_by_id [of g s targets "[]"] r1 by simp
  have e2: "stores_written tr2 = []"
    using stores_discover [of w g category targets resolved1] r2 by simp
  have run: "ensure_stats_voice_channels cfg w g s d =
      returns (store_ids resolved s)
        (d\<lparr>channel_id_file := write_ids (ids_write w) (channel_id_file d)
              (serializable (id_cache (store_ids resolved s)))\<rparr>)
        (tr0 @ tr1 @ tr2 @ [WriteChannelIds (serializable (id_cache (store_ids resolved s)))])"
    by (simp add: ensure_stats_voice_channels_def c r1 r2 save_ids_def Let_def)
  show ?thesis
    by (rule exI [of _ resolved])
      (simp add: run returns_fields stores_written_append e0 e1 e2)
qed


lemma ex_run_extra:
  "snd (snd (run_store ex_cfg [(ex_env, ex_guild)] ex_disk_extra)) =
     [[(''extra'', 7), (''subs'', 11), (''views'', 12), (''videos'', 13), (''goal'', 14),
       (''members'', 15), (''live'', 16)]]"
  by code_simp


lemma ex_run_fresh:
  "snd (snd (run_store ex_cfg [(ex_env, ex_guild)] ex_disk)) =
     [[(''subs'', 11), (''views'', 12), (''videos'', 13), (''goal'', 14),
       (''members'', 15), (''live'', 16)]]"
  by code_simp

lemma ex_file_extra:
  "channel_id_file (fst (snd (run_store ex_cfg [(ex_env, ex_guild)] ex_disk_extra))) =
     IdsObject [(''extra'', JInt 7), (''subs'', JInt 11), (''views'', JInt 12),
       (''videos'', JInt 13), (''goal'', JInt 14), (''members'', JInt 15), (''live'', JInt 16)]"
  by code_simp

lemma ensure_all_keys:
  assumes "distinct (map fst (id_cache s))" and "fst ` set (id_cache s) \<subseteq> set roles \<union> K"
  shows "\<forall>ids \<in> set (snd (snd (ensure_all cfg ws s d))).
           distinct (map fst ids) \<and> fst ` set ids \<subseteq> set roles \<union> K"
  using assms
proof (induction ws arbitrary: s d)
  case Nil
  show ?case by simp
next
  case (Cons p ws)
  obtain w g where p: "p = (w, g)" by (cases p)
  let ?r = "ensure_stats_voice_channels cfg w g s d"
  obtain resolved where r: "st ?r = store_ids resolved s"
    "stores_written (trace ?r) = [serializable (id_cache (store_ids resolved s))]"
    using ensure_outcome [of cfg w g s d] by blast
  have d1: "distinct (map fst (id_cache (st ?r)))"
    using Cons.prems(1) by (simp add: r(1) distinct_store_ids)
  have k1: "fst ` set (id_cache (st ?r)) \<subseteq> set roles \<union> K"
    using Cons.prems(2) by (simp add: r(1) keys_store_ids)
  have rest: "\<forall>ids \<in> set (snd (snd (ensure_all cfg ws (st ?r) (dk ?r)))).
      distinct (map fst ids) \<and> fst ` set ids \<subseteq> set roles \<union> K"
    using d1 k1 by (rule Cons.IH)
  have here: "distinct (map fst (serializable (id_cache (st ?r)))) \<and>
      fst ` set (serializable (id_cache (st ?r))) \<subseteq> set roles \<union> K"
    using d1 k1 keys_serializable [of "id_cache (st ?r)"]
    by (simp add: distinct_serializable)
  obtain s' d' written where e: "ensure_all cfg ws (st ?r) (dk ?r) = (s', d', written)"
    by (cases "ensure_all cfg ws (st ?r) (dk ?r)")
  have sw: "stores_written (trace ?r) = [serializable (id_cache (st ?r))]"
    by (simp only: r)
  have w: "snd (snd (ensure_all cfg (p # ws) s d)) =
      serializable (id_cache (st ?r)) # written"
    by (simp add: p Let_def e sw)
  from rest e here show ?case
    by (simp add: w)
qed

lemma ensure_all_file:
  "channel_id_file (fst (snd (ensure_all cfg ws s d))) = channel_id_file d \<or>
   channel_id_file (fst (snd (ensure_all cfg ws s d))) = IdsUnreadable \<or>
   (\<exists>ids \<in> set (snd (snd (ensure_all cfg ws s d))).
      channel_id_file (fst (snd (ensure_all cfg ws s d))) = dump_ids ids)"
proof (induction ws arbitrary: s d)
  case Nil
  show ?case by simp
next
  case (Cons p ws)
  obtain w g where p: "p = (w, g)" by (cases p)
  let ?r = "ensure_stats_voice_channels cfg w g s d"
  let ?ids = "serializable (id_cache (st ?r))"
  obtain resolved where r: "st ?r = store_ids resolved s"
    "stores_written (trace ?r) = [serializable (id_cache (store_ids resolved s))]"
    "channel_id_file (dk ?r) =
       write_ids (ids_write w) (channel_id_file d) (serializable (id_cache (store_ids resolved s)))"
    using ensure_outcome [of cfg w g s d] by blast
  obtain s' d' written where e: "ensure_all cfg ws (st ?r) (dk ?r) = (s', d', written)"
    by (cases "ensure_all cfg ws (st ?r) (dk ?r)")
  have sw: "stores_written (trace ?r) = [?ids]"
    by (simp only: r)
  have all: "ensure_all cfg (p # ws) s d = (s', d', ?ids # written)"
    by (simp add: p Let_def e sw)
  have "channel_id_file (dk ?r) = write_ids (ids_write w) (channel_id_file d) ?ids"
    by (simp only: r)
  then have first: "channel_id_file (dk ?r) = channel_id_file d \<or>
      channel_id_file (dk ?r) = IdsUnreadable \<or> channel_id_file (dk ?r) = dump_ids ?ids"
    by (cases "ids_write w") simp_all
  from Cons [of "st ?r" "dk ?r"] e
  have rest: "channel_id_file d' = channel_id_file (dk ?r) \<or>
      channel_id_file d' = IdsUnreadable \<or>
      (\<exists>ids \<in> set written. channel_id_file d' = dump_ids ids)"
    by simp
  from first rest show ?case
    unfolding all by auto
qed

lemma init_cache_keys:
  "distinct (map fst (id_cache (module_init d)))"
  "fst ` set (id_cache (module_init d)) = fst ` set (load_ids (channel_id_file d))"
proof -
  have m: "map fst (map (\<lambda>(k, v). (k, Some v)) ids) = map fst ids" for ids :: "(string \<times> int) list"
    by (induction ids) auto
  show "distinct (map fst (id_cache (module_init d)))"
    by (simp add: module_init_def Let_def m distinct_load_ids del: map_map)
  have "set (map fst (id_cache (module_init d))) = set (map fst (load_ids (channel_id_file d)))"
    by (simp add: module_init_def Let_def m del: map_map)
  then show "fst ` set (id_cache (module_init d)) = fst ` set (load_ids (channel_id_file d))"
    by simp
qed

lemma roles_six: "card (set roles) = 6" "finite (set roles)"
  by (simp_all add: roles_def targets_def)

lemma keys_bound:
  assumes "distinct (map fst ids)" and "fst ` set ids \<subseteq> set roles \<union> K" and "finite K"
  shows "length ids \<le> 6 + card (K - set roles)"
proof -
  have "length ids = card (fst ` set ids)"
    using assms(1) by (metis distinct_card length_map set_map)
  also have "\<dots> \<le> card (set roles \<union> (K - set roles))"
    using assms(2,3) by (intro card_mono) auto
  also have "\<dots> \<le> card (set roles) + card (K - set roles)"
    by (rule card_Un_le)
  finally show ?thesis by (simp add: roles_six)
qed

text \<open>
  Claim C2, as the code has it.  The claim bounds the persisted store by the six roles,
  also after a load of a file with other keys.  \<^verbatim>\<open>load_ids\<close> keeps every key of the file
  whose value is a number, the update adds the six roles to that dictionary and
  \<^verbatim>\<open>save_ids\<close> writes all of it: from a file \<^verbatim>\<open>{"extra": 7}\<close> one resolution of the six
  channels writes a store of seven entries.
\<close>

theorem store_at_most_six_counterexample:
  "load_ids (channel_id_file ex_disk_extra) = [(''extra'', 7)] \<and>
   snd (snd (run_store ex_cfg [(ex_env, ex_guild)] ex_disk_extra)) =
     [[(''extra'', 7), (''subs'', 11), (''views'', 12), (''videos'', 13), (''goal'', 14),
       (''members'', 15), (''live'', 16)]] \<and>
   channel_id_file (fst (snd (run_store ex_cfg [(ex_env, ex_guild)] ex_disk_extra))) =
     IdsObject [(''extra'', JInt 7), (''subs'', JInt 11), (''views'', JInt 12),
       (''videos'', JInt 13), (''goal'', JInt 14), (''members'', JInt 15), (''live'', JInt 16)] \<and>
   \<not> length [(''extra'', JInt 7), (''subs'', JInt 11), (''views'', JInt 12),
       (''videos'', JInt 13), (''goal'', JInt 14), (''members'', JInt 15), (''live'', JInt 16)]
     \<le> (6 :: nat)"
proof -
  have l: "load_ids (channel_id_file ex_disk_extra) = [(''extra'', 7)]"
    by (simp add: ex_disk_extra_def)
  from l ex_run_extra ex_file_extra show ?thesis by simp
qed

text \<open>
  Claim C2, amended.  In every run (the module's start on any file, then any number of
  resolutions with any guild and any outcomes), every store that is written has distinct
  keys, each a role or a key that \<^verbatim>\<open>load_ids\<close> accepted from the file at the start; so it
  has at most six entries more than the number of such other keys, and at most six
  entries when the file held no key other than a role.  The file at the end is the file
  of the start, an interrupted write, or one of the stores written.
\<close>

theorem store_keys_bounded:
  "(\<forall>ids \<in> set (snd (snd (run_store cfg ws d))).
      distinct (map fst ids) \<and>
      fst ` set ids \<subseteq> set roles \<union> fst ` set (load_ids (channel_id_file d)) \<and>
      length ids \<le> 6 + card (fst ` set (load_ids (channel_id_file d)) - set roles) \<and>
      (fst ` set (load_ids (channel_id_file d)) \<subseteq> set roles \<longrightarrow> length ids \<le> 6))
   \<and>
   (channel_id_file (fst (snd (run_store cfg ws d))) = channel_id_file d \<or>
    channel_id_file (fst (snd (run_store cfg ws d))) = IdsUnreadable \<or>
    (\<exists>ids \<in> set (snd (snd (run_store cfg ws d))).
       channel_id_file (fst (snd (run_store cfg ws d))) = dump_ids ids))"
proof (rule conjI)
  let ?K = "fst ` set (load_ids (channel_id_file d))"
  have k: "fst ` set (id_cache (module_init d)) \<subseteq> set roles \<union> ?K"
    by (simp add: init_cache_keys(2))
  have inv: "\<forall>ids \<in> set (snd (snd (run_store cfg ws d))).
      distinct (map fst ids) \<and> fst ` set ids \<subseteq> set roles \<union> ?K"
    unfolding run_store_def using init_cache_keys(1) k by (rule ensure_all_keys)
  show "\<forall>ids \<in> set (snd (snd (run_store cfg ws d))).
      distinct (map fst ids) \<and> fst ` set ids \<subseteq> set roles \<union> ?K \<and>
      length ids \<le> 6 + card (?K - set roles) \<and>
      (?K \<subseteq> set roles \<longrightarrow> length ids \<le> 6)"
  proof
    fix ids
    assume "ids \<in> set (snd (snd (run_store cfg ws d)))"
    with inv have i: "distinct (map fst ids)" "fst ` set ids \<subseteq> set roles \<union> ?K" by auto
    have fin: "finite ?K" by simp
    from i fin have b: "length ids \<le> 6 + card (?K - set roles)" by (rule keys_bound)
    have "?K \<subseteq> set roles \<longrightarrow> length ids \<le> 6"
    proof
      assume "?K \<subseteq> set roles"
      then have "?K - set roles = {}" by blast
      with b show "length ids \<le> 6" by simp
    qed
    with i b show "distinct (map fst ids) \<and> fst ` set ids \<subseteq> set roles \<union> ?K \<and>
      length ids \<le> 6 + card (?K - set roles) \<and> (?K \<subseteq> set roles \<longrightarrow> length ids \<le> 6)"
      by blast
  qed
next
  show "channel_id_file (fst (snd (run_store cfg ws d))) = channel_id_file d \<or>
    channel_id_file (fst (snd (run_store cfg ws d))) = IdsUnreadable \<or>
    (\<exists>ids \<in> set (snd (snd (run_store cfg ws d))).
       channel_id_file (fst (snd (run_store cfg ws d))) = dump_ids ids)"
    unfolding run_store_def by (rule ensure_all_file)
qed

theorem store_keys_bounded_witness:
  "[(''subs'', 11), (''views'', 12), (''videos'', 13), (''goal'', 14), (''members'', 15),
    (''live'', 16)] \<in> set (snd (snd (run_store ex_cfg [(ex_env, ex_guild)] ex_disk))) \<and>
   fst ` set (load_ids (channel_id_file ex_disk)) \<subseteq> set roles \<and>
   length [(''subs'', 11 :: int), (''views'', 12), (''videos'', 13), (''goal'', 14),
     (''members'', 15), (''live'', 16)] \<le> 6 \<and>
   [(''extra'', 7), (''subs'', 11), (''views'', 12), (''videos'', 13), (''goal'', 14),
    (''members'', 15), (''live'', 16)]
     \<in> set (snd (snd (run_store ex_cfg [(ex_env, ex_guild)] ex_disk_extra))) \<and>
   length [(''extra'', 7 :: int), (''subs'', 11), (''views'', 12), (''videos'', 13), (''goal'', 14),
     (''members'', 15), (''live'', 16)]
     \<le> 6 + card (fst ` set (load_ids (channel_id_file ex_disk_extra)) - set roles)"
proof -
  have m: "[(''subs'', 11), (''views'', 12), (''videos'', 13), (''goal'', 14), (''members'', 15),
    (''live'', 16)] \<in> set (snd (snd (run_store ex_cfg [(ex_env, ex_guild)] ex_disk)))"
    by (simp add: ex_run_fresh)
  have m2: "[(''extra'', 7), (''subs'', 11), (''views'', 12), (''videos'', 13), (''goal'', 14),
    (''members'', 15), (''live'', 16)]
     \<in> set (snd (snd (run_store ex_cfg [(ex_env, ex_guild)] ex_disk_extra)))"
    by (simp add: ex_run_extra)
  have k: "fst ` set (load_ids (channel_id_file ex_disk)) \<subseteq> set roles"
    by (simp add: ex_disk_def)
  note T1 = store_keys_bounded [of ex_cfg "[(ex_env, ex_guild)]" ex_disk]
  note T2 = store_keys_bounded [of ex_cfg "[(ex_env, ex_guild)]" ex_disk_extra]
  from T1 m k have a: "length [(''subs'', 11 :: int), (''views'', 12), (''videos'', 13),
      (''goal'', 14), (''members'', 15), (''live'', 16)] \<le> 6"
    by blast
  from T2 m2 have b: "length [(''extra'', 7 :: int), (''subs'', 11), (''views'', 12),
      (''videos'', 13), (''goal'', 14), (''members'', 15), (''live'', 16)]
     \<le> 6 + card (fst ` set (load_ids (channel_id_file ex_disk_extra)) - set roles)"
    by blast
  from m m2 k a b show ?thesis by blast
qed

end
